theory Spec2Isabelle
  imports Main "HOL-Library.Word"
begin

unbundle bit_operations_syntax

text \<open>
  The access-tracking records of the NumaPerf profiler and the containers that hold them:
  the per-page record, the per-cache-line record, the diagnosis of an object, the bounded
  atomic increment, the two address-keyed shadow maps and the shadow hash map. The
  definitions come first, each following its C++ function statement by statement; the
  properties follow.
\<close>

section \<open>Machine types, constants and faults\<close>

text \<open>
  The profiler is compiled for x86-64 Linux: \<open>unsigned long\<close> and \<open>long\<close> are 64 bits,
  \<open>unsigned int\<close> and \<open>int\<close> 32 bits, \<open>unsigned short\<close> and \<open>short\<close> 16 bits.
  Unsigned arithmetic wraps around, which is what \<open>+\<close> on words does.
\<close>

type_synonym ulong = "64 word"
type_synonym uint = "32 word"
type_synonym ushort = "16 word"

text \<open>
  What a C++ call can do instead of returning: fail an assertion, index an array outside
  its bounds, dereference \<open>NULL\<close>, shift a 64-bit value by 64 or more (all three
  undefined behaviour), or leave through the \<open>exit(-1)\<close> of \<open>MM::allocate\<close> when
  \<open>mmap\<close> fails.
\<close>

datatype fault = AssertionFailed | OutOfBounds | NullDereference | ShiftTooWide | MmapFailed

text \<open>
  Modelled from the spec: \<open>xdefines.h\<close> is not among the sources. The spec fixes the
  page size at 4096 bytes and the cache line at 64 bytes, and
  \<open>writes_per_cache_line\<close> has page size / cache line size slots.
\<close>

definition PAGE_SIZE :: nat where
  "PAGE_SIZE = 4096"

definition CACHE_LINE_SIZE :: nat where
  "CACHE_LINE_SIZE = 64"

definition CACHE_NUM_IN_ONE_PAGE :: nat where
  "CACHE_NUM_IN_ONE_PAGE = PAGE_SIZE div CACHE_LINE_SIZE"

text \<open>
  Modelled from the spec: \<open>ADDRESSES::getCacheIndexInsidePage\<close> (\<open>utils/addresses.h\<close>)
  is not among the sources. It is the spec's \<open>cache_line_index_in_page\<close>: the offset of
  the address inside its 4096-byte page, counted in 64-byte cache lines.
\<close>

definition getCacheIndexInsidePage :: "ulong \<Rightarrow> nat" where
  "getCacheIndexInsidePage addr = unat (drop_bit 6 (addr AND 4095))"

text \<open>
  Modelled from the spec: \<open>ADDRESSES::getPageIndex\<close> (\<open>utils/addresses.h\<close>) is not
  among the sources. It is the spec's \<open>page_index\<close>: the address counted in 4096-byte
  pages.
\<close>

definition getPageIndex :: "ulong \<Rightarrow> ulong" where
  "getPageIndex addr = drop_bit 12 addr"

text \<open>The two kinds of access of \<open>eAccessType\<close>; the source names \<open>E_ACCESS_WRITE\<close>.\<close>

datatype eAccessType = E_ACCESS_READ | E_ACCESS_WRITE


section \<open>PageBasicAccessInfo (bean/pagebasicaccessinfo.h)\<close>

text \<open>
  The array \<open>cacheLineWritingNumber[CACHE_NUM_IN_ONE_PAGE]\<close> is a list; a record is
  well formed when the list has the array's length.
\<close>

record PageBasicAccessInfo =
  firstTouchThreadId :: ushort
  accessNumberByOtherThreads :: ulong
  cacheLineWritingNumber :: "ulong list"

definition wf_page :: "PageBasicAccessInfo \<Rightarrow> bool" where
  "wf_page r = (length (cacheLineWritingNumber r) = CACHE_NUM_IN_ONE_PAGE)"

text \<open>The constructor: counters zeroed by assignment and \<open>memset\<close>.\<close>

definition newPageBasicAccessInfo :: "ushort \<Rightarrow> PageBasicAccessInfo" where
  "newPageBasicAccessInfo ft =
     \<lparr>firstTouchThreadId = ft,
      accessNumberByOtherThreads = 0,
      cacheLineWritingNumber = replicate CACHE_NUM_IN_ONE_PAGE 0\<rparr>"

text \<open>
  \<open>firstTouchThreadId != accessThreadId\<close> compares an \<open>unsigned short\<close> with an
  \<open>unsigned long\<close>: the short is widened (\<open>ucast\<close>). The increment is a 64-bit \<open>++\<close>.
\<close>

definition recordAccessForPageSharing :: "ulong \<Rightarrow> PageBasicAccessInfo \<Rightarrow> PageBasicAccessInfo" where
  "recordAccessForPageSharing accessThreadId r =
     (if ucast (firstTouchThreadId r) \<noteq> accessThreadId
      then r\<lparr>accessNumberByOtherThreads := accessNumberByOtherThreads r + 1\<rparr>
      else r)"

definition recordAccessForCacheSharing ::
  "ulong \<Rightarrow> eAccessType \<Rightarrow> PageBasicAccessInfo \<Rightarrow> fault + PageBasicAccessInfo" where
  "recordAccessForCacheSharing addr type r =
     (if type = E_ACCESS_WRITE
      then (let i = getCacheIndexInsidePage addr
            in if i < length (cacheLineWritingNumber r)
               then Inr (r\<lparr>cacheLineWritingNumber :=
                              (cacheLineWritingNumber r)[i := cacheLineWritingNumber r ! i + 1]\<rparr>)
               else Inl OutOfBounds)
      else Inr r)"

text \<open>
  The two thresholds are compile-time constants of \<open>xdefines.h\<close>, which is not among
  the sources: they are parameters here.
\<close>

definition needPageSharingDetailInfo :: "nat \<Rightarrow> PageBasicAccessInfo \<Rightarrow> bool" where
  "needPageSharingDetailInfo PAGE_SHARING_DETAIL_THRESHOLD r =
     (unat (accessNumberByOtherThreads r) > PAGE_SHARING_DETAIL_THRESHOLD)"

definition needCacheLineSharingDetailInfo ::
  "nat \<Rightarrow> ulong \<Rightarrow> PageBasicAccessInfo \<Rightarrow> fault + bool" where
  "needCacheLineSharingDetailInfo CACHE_SHARING_DETAIL_THRESHOLD addr r =
     (let i = getCacheIndexInsidePage addr
      in if i < length (cacheLineWritingNumber r)
         then Inr (unat (cacheLineWritingNumber r ! i) > CACHE_SHARING_DETAIL_THRESHOLD)
         else Inl OutOfBounds)"

definition getFirstTouchThreadId :: "PageBasicAccessInfo \<Rightarrow> ushort" where
  "getFirstTouchThreadId r = firstTouchThreadId r"

text \<open>
  The operations of the class as data, to speak about sequences of calls. A query
  returns its answer and leaves the record as it is.
\<close>

datatype pageOp =
    RecordAccessForPageSharing ulong
  | RecordAccessForCacheSharing ulong eAccessType
  | NeedPageSharingDetailInfo
  | NeedCacheLineSharingDetailInfo ulong
  | GetFirstTouchThreadId

fun applyPageOp :: "nat \<Rightarrow> pageOp \<Rightarrow> PageBasicAccessInfo \<Rightarrow> fault + PageBasicAccessInfo" where
  "applyPageOp T (RecordAccessForPageSharing t) r = Inr (recordAccessForPageSharing t r)"
| "applyPageOp T (RecordAccessForCacheSharing addr type) r = recordAccessForCacheSharing addr type r"
| "applyPageOp T NeedPageSharingDetailInfo r = Inr r"
| "applyPageOp T (NeedCacheLineSharingDetailInfo addr) r =
     (case needCacheLineSharingDetailInfo T addr r of Inl e \<Rightarrow> Inl e | Inr b \<Rightarrow> Inr r)"
| "applyPageOp T GetFirstTouchThreadId r = Inr r"

fun runPageOps :: "nat \<Rightarrow> pageOp list \<Rightarrow> PageBasicAccessInfo \<Rightarrow> fault + PageBasicAccessInfo" where
  "runPageOps T [] r = Inr r"
| "runPageOps T (op # ops) r =
     (case applyPageOp T op r of Inl e \<Rightarrow> Inl e | Inr r' \<Rightarrow> runPageOps T ops r')"


text \<open>
  To state what a sequence of calls does to one counter: whether an operation is one that
  increments \<open>accessNumberByOtherThreads\<close> (on a record whose first-touch thread is
  \<open>ft\<close>), and whether it is one that increments the slot \<open>i\<close> of
  \<open>cacheLineWritingNumber\<close>.
\<close>

fun incrementsAccess :: "ushort \<Rightarrow> pageOp \<Rightarrow> bool" where
  "incrementsAccess ft (RecordAccessForPageSharing t) = (ucast ft \<noteq> t)"
| "incrementsAccess ft op = False"

fun incrementsSlot :: "nat \<Rightarrow> pageOp \<Rightarrow> bool" where
  "incrementsSlot i (RecordAccessForCacheSharing addr type) =
     (type = E_ACCESS_WRITE \<and> getCacheIndexInsidePage addr = i)"
| "incrementsSlot i op = False"


section \<open>CacheLineAccessInfo (bean/pagebasicaccessinfo.h)\<close>

text \<open>
  Pointers are addresses (\<open>ulong\<close>, 0 for \<open>NULL\<close>). The array
  \<open>residentObjectsInfoPtr[CACHE_LINE_SIZE]\<close> is a list; a record is well formed when
  the list has the array's length.
\<close>

record CacheLineAccessInfo =
  cacheLineStartAddress :: ulong
  threadRead :: ulong
  threadWrite :: ulong
  residentObjectsInfoPtr :: "ulong list"

definition wf_cacheLine :: "CacheLineAccessInfo \<Rightarrow> bool" where
  "wf_cacheLine c = (length (residentObjectsInfoPtr c) = CACHE_LINE_SIZE)"

text \<open>
  The two \<open>assert\<close>s, then the subtraction and the array read. The sum
  \<open>cacheLineStartAddress + CACHE_LINE_SIZE\<close> is a 64-bit unsigned sum.
\<close>

definition findObjectInCacheLine :: "ulong \<Rightarrow> CacheLineAccessInfo \<Rightarrow> fault + ulong" where
  "findObjectInCacheLine address c =
     (if \<not> (address \<ge> cacheLineStartAddress c) then Inl AssertionFailed
      else if \<not> (address \<le> cacheLineStartAddress c + of_nat CACHE_LINE_SIZE) then Inl AssertionFailed
      else (let index = address - cacheLineStartAddress c
            in if unat index < length (residentObjectsInfoPtr c)
               then Inr (residentObjectsInfoPtr c ! unat index)
               else Inl OutOfBounds))"


section \<open>DiagnoseObjInfo (bean/pagebasicaccessinfo.h)\<close>

text \<open>
  \<open>PriorityQueue\<close> (\<open>utils/collection/priorityqueue.h\<close>) is not among the sources: the
  type of the queue is a parameter \<open>'q\<close>, and the queue that
  \<open>PriorityQueue(MAX_TOP_CACHELINE_DETAIL_INFO)\<close> constructs is a parameter of the
  constructor.
\<close>

record 'q DiagnoseObjInfo =
  objectInfo :: ulong
  allInvalidNumInMainThread :: ulong
  allInvalidNumInOtherThreads :: ulong
  allAccessNumInMainThread :: ulong
  allAccessNumInOtherThread :: ulong
  topCacheLineDetailQueue :: 'q

text \<open>
  The constructor runs by placement \<open>new\<close> on a buffer: \<open>buff\<close> is the object as the
  bytes of the buffer make it before the constructor runs. The member initialiser sets
  the queue, and the body assigns the four counters. The first statement of the body,
  \<open>objectInfo = objectInfo;\<close>, names the constructor's parameter on both sides (the
  parameter hides the member of the same name): it assigns the parameter to itself, and no
  statement assigns the member, which keeps what the buffer held.
\<close>

definition DiagnoseObjInfo_ctor :: "'q DiagnoseObjInfo \<Rightarrow> 'q \<Rightarrow> ulong \<Rightarrow> 'q DiagnoseObjInfo" where
  "DiagnoseObjInfo_ctor buff newQueue objectInfoParam =
     (let objectInfoParam' = objectInfoParam
      in buff\<lparr>topCacheLineDetailQueue := newQueue,
              allInvalidNumInMainThread := 0,
              allInvalidNumInOtherThreads := 0,
              allAccessNumInMainThread := 0,
              allAccessNumInOtherThread := 0\<rparr>)"

text \<open>
  \<open>MemoryPool\<close> is not among the sources: what \<open>localMemoryPool.get()\<close> hands out is
  the parameter \<open>buff\<close>. The call returns the pointer to the constructed object; the model
  returns the object.
\<close>

definition createNewDiagnoseObjInfo :: "'q DiagnoseObjInfo \<Rightarrow> 'q \<Rightarrow> ulong \<Rightarrow> 'q DiagnoseObjInfo" where
  "createNewDiagnoseObjInfo buff newQueue objectInfoParam =
     DiagnoseObjInfo_ctor buff newQueue objectInfoParam"


section \<open>Automics (utils/concurrency/automics.h)\<close>

text \<open>
  \<open>automicIncrease\<close> works on a memory cell that other threads write as well. What the
  other threads do is the parameter \<open>env\<close>: \<open>env n\<close> is the change they make to the
  cell at the \<open>n\<close>-th point in time of the call, the identity when they leave it alone.
  The \<open>k\<close>-th run of the loop body (counted from 0) has two such points: \<open>2 * k\<close>,
  before the body reads \<open>*targetValue\<close> into \<open>expect_value\<close>, and \<open>2 * k + 1\<close>,
  between that read and the compare-and-exchange.

  The type \<open>T\<close> is \<open>long\<close>, as in the one call of the repository
  (\<open>LockInfo\<close>); \<open>expect_value + increaseNumber\<close> is a 64-bit sum.
\<close>

type_synonym env = "nat \<Rightarrow> ulong \<Rightarrow> ulong"

text \<open>
  One run of the loop body on the cell \<open>mem\<close>:
  \<open>Some v\<close> when the compare-and-exchange succeeded and the body returns \<open>v\<close>,
  \<open>None\<close> when it failed; with the cell afterwards.
\<close>

definition attempt :: "env \<Rightarrow> ulong \<Rightarrow> nat \<Rightarrow> ulong \<Rightarrow> ulong option \<times> ulong" where
  "attempt env increaseNumber k mem =
     (let mem1 = env (2 * k) mem;
          expect_value = mem1;
          mem2 = env (2 * k + 1) mem1
      in if mem2 = expect_value
         then (Some (expect_value + increaseNumber), expect_value + increaseNumber)
         else (None, mem2))"

text \<open>\<open>while (1) { ... }\<close>: \<open>None\<close> when the loop never ends.\<close>

partial_function (option) retryForever :: "env \<Rightarrow> ulong \<Rightarrow> nat \<Rightarrow> ulong \<Rightarrow> (ulong \<times> ulong) option" where
  "retryForever env increaseNumber k mem =
     (case attempt env increaseNumber k mem of
        (Some v, mem') \<Rightarrow> Some (v, mem')
      | (None, mem') \<Rightarrow> retryForever env increaseNumber (Suc k) mem')"

text \<open>\<open>for (int i = 0; i < retry_num; i++) { ... } return -1;\<close>\<close>

function retryBounded :: "env \<Rightarrow> ulong \<Rightarrow> int \<Rightarrow> int \<Rightarrow> ulong \<Rightarrow> ulong \<times> ulong" where
  "retryBounded env increaseNumber retry_num i mem =
     (if i < retry_num
      then (case attempt env increaseNumber (nat i) mem of
              (Some v, mem') \<Rightarrow> (v, mem')
            | (None, mem') \<Rightarrow> retryBounded env increaseNumber retry_num (i + 1) mem')
      else (- 1, mem))"
  by pat_completeness auto
termination
  by (relation "measure (\<lambda>(env, increaseNumber, retry_num, i, mem). nat (retry_num - i))") auto

text \<open>
  The call: the value returned and the cell afterwards, or \<open>None\<close> when the call never
  returns.
\<close>

definition automicIncrease :: "env \<Rightarrow> ulong \<Rightarrow> ulong \<Rightarrow> int \<Rightarrow> (ulong \<times> ulong) option" where
  "automicIncrease env targetValue increaseNumber retry_num =
     (if retry_num < 0
      then retryForever env increaseNumber 0 targetValue
      else Some (retryBounded env increaseNumber retry_num 0 targetValue))"

text \<open>
  To state what the call does: the cell as the \<open>k\<close>-th run of the body finds it when
  every earlier run has failed, the value that run reads, and whether its
  compare-and-exchange succeeds.
\<close>

fun cellBefore :: "env \<Rightarrow> nat \<Rightarrow> ulong \<Rightarrow> ulong" where
  "cellBefore env 0 mem = mem"
| "cellBefore env (Suc k) mem = env (2 * k + 1) (env (2 * k) (cellBefore env k mem))"

definition valueRead :: "env \<Rightarrow> nat \<Rightarrow> ulong \<Rightarrow> ulong" where
  "valueRead env k mem = env (2 * k) (cellBefore env k mem)"

definition casSucceeds :: "env \<Rightarrow> nat \<Rightarrow> ulong \<Rightarrow> bool" where
  "casSucceeds env k mem = (env (2 * k + 1) (valueRead env k mem) = valueRead env k mem)"


section \<open>Blocks of the shadow maps\<close>

text \<open>
  A data block of a shadow map is a \<open>short\<close> of metadata followed by the value
  (\<open>META_DATA_SIZE\<close> bytes further). \<open>stored\<close> is \<open>None\<close> as long as no value has been
  constructed in the block. The three tags are those of both shadow maps.
\<close>

definition NOT_INSERT :: "16 word" where
  "NOT_INSERT = 0"

definition INSERTING :: "16 word" where
  "INSERTING = 1"

definition INSERTED :: "16 word" where
  "INSERTED = 2"

record 'v block =
  metaData :: "16 word"
  stored :: "'v option"

text \<open>A fresh anonymous mapping is filled with zeros.\<close>

definition zeroBlock :: "'v block" where
  "zeroBlock = \<lparr>metaData = 0, stored = None\<rparr>"

text \<open>
  What the other threads do to the block while a call works on it is again a parameter:
  \<open>env n\<close> is the change they make before the \<open>n\<close>-th access of the call to the block,
  the identity when they leave it alone.
\<close>

type_synonym 'v blockEnv = "nat \<Rightarrow> 'v block \<Rightarrow> 'v block"

text \<open>
  \<open>while (*metaData != INSERTED) { Logger::warn(...); }\<close>: each turn reads the tag
  again. \<open>None\<close> when the loop never ends.
\<close>

partial_function (option) busyWaiting :: "'v blockEnv \<Rightarrow> nat \<Rightarrow> 'v block \<Rightarrow> 'v block option" where
  "busyWaiting env n b =
     (let b' = env n b
      in if metaData b' \<noteq> INSERTED then busyWaiting env (Suc n) b' else Some b')"

text \<open>
  The part of \<open>insertIfAbsent\<close> after the data block is found; the two shadow maps have
  the same statements. Access 0 is the \<open>compare_set\<close>, which writes \<open>INSERTING\<close> when the
  tag is \<open>NOT_INSERT\<close>; then either the reads of the busy waiting (accesses 1, 2, ...)
  or the construction of the value (access 1) and the store of \<open>INSERTED\<close> (access 2).
\<close>

definition insertIfAbsentBlock :: "'v blockEnv \<Rightarrow> 'v \<Rightarrow> 'v block \<Rightarrow> (bool \<times> 'v block) option" where
  "insertIfAbsentBlock env val b =
     (let b0 = env 0 b
      in if metaData b0 \<noteq> NOT_INSERT
         then (case busyWaiting env 1 b0 of
                 None \<Rightarrow> None
               | Some b' \<Rightarrow> Some (False, b'))
         else (let b1 = env 1 (b0\<lparr>metaData := INSERTING\<rparr>);
                   b2 = env 2 (b1\<lparr>stored := Some val\<rparr>)
               in Some (True, b2\<lparr>metaData := INSERTED\<rparr>)))"



section \<open>AddressToPageIndexShadowMap (utils/collection/addrtopageindexshadowmap.h)\<close>

text \<open>
  \<open>startAddress[MAX_FRAGMENTS]\<close> is a list of fragments, \<open>None\<close> for \<open>NULL\<close>. A
  fragment is read as the blocks at the byte offsets from its start. The source checks no
  offset against \<open>fragmentSize\<close> (its assertion is commented out), and neither does the
  model. \<open>MAX_FRAGMENTS\<close> is a compile-time constant of \<open>xdefines.h\<close>, which is not
  among the sources: it is a parameter.

  Modelled from the spec: the class \<open>spinlock\<close> is not among the sources. The spec has a
  single lock per map that guards the allocation of fragments: \<open>lock()\<close> takes it,
  waiting as long as it is held, and \<open>unlock()\<close> frees it. The field \<open>lock\<close> says
  whether the lock is held.

  A map is well formed when the list has the length of the array and the lock is free.
\<close>

type_synonym 'v fragment = "ulong \<Rightarrow> 'v block"

record 'v AddressToPageIndexShadowMap =
  fragmentSize :: ulong
  fragmentMappingBitMask :: ulong
  fragmentMappingBitNum :: ulong
  blockSize :: ulong
  startAddress :: "'v fragment option list"
  lock :: bool

definition wf_map :: "nat \<Rightarrow> 'v AddressToPageIndexShadowMap \<Rightarrow> bool" where
  "wf_map MAX_FRAGMENTS m = (length (startAddress m) = MAX_FRAGMENTS \<and> \<not> lock m)"

definition hashKey :: "'v AddressToPageIndexShadowMap \<Rightarrow> ulong \<Rightarrow> ulong" where
  "hashKey m key = (let offsetInSegment = key AND fragmentMappingBitMask m
                    in getPageIndex offsetInSegment)"

text \<open>
  \<open>unsigned int fragmentIndex = key >> fragmentMappingBitNum;\<close> in \<open>getDataBlock\<close> and
  in \<open>createFragment\<close>: the shifted key is an \<open>unsigned long\<close>, and the initialisation of
  the \<open>unsigned int\<close> keeps its low 32 bits.
\<close>

definition fragmentIndexOf :: "'v AddressToPageIndexShadowMap \<Rightarrow> ulong \<Rightarrow> fault + uint" where
  "fragmentIndexOf m key =
     (if 64 \<le> unat (fragmentMappingBitNum m) then Inl ShiftTooWide
      else Inr (ucast (drop_bit (unat (fragmentMappingBitNum m)) key)))"

text \<open>The pointer returned is the fragment's index with the offset of the block in it.\<close>

definition getDataBlock ::
  "nat \<Rightarrow> ulong \<Rightarrow> 'v AddressToPageIndexShadowMap \<Rightarrow> fault + (nat \<times> ulong) option" where
  "getDataBlock MAX_FRAGMENTS key m =
     (case fragmentIndexOf m key of
        Inl e \<Rightarrow> Inl e
      | Inr fragmentIndex \<Rightarrow>
          if unat fragmentIndex \<ge> MAX_FRAGMENTS then Inr None
          else if unat fragmentIndex \<ge> length (startAddress m) then Inl OutOfBounds
          else if startAddress m ! unat fragmentIndex = None then Inr None
          else (let index = hashKey m key;
                    offset = index * blockSize m
                in Inr (Some (unat fragmentIndex, offset))))"

text \<open>
  \<open>createFragment\<close>, statement by statement: \<open>lock.lock()\<close>, the fragment index, the
  assertion, the second look at \<open>startAddress[fragmentIndex]\<close>, the mapping,
  \<open>lock.unlock()\<close>. The result is \<open>None\<close> when the call never returns (it runs alone
  and the lock is held), a fault with the map as it is at the fault, or the map
  afterwards.

  \<open>Asserts::assertt\<close> (\<open>utils/asserts.h\<close>) is not among the sources, and the spec does
  not describe it: whether a failed assertion returns to its caller is the parameter
  \<open>asserttReturns\<close>. When it does not return, the call ends at the assertion; when it
  returns, \<open>createFragment\<close> goes on to its next statement.
  \<open>MM::mmapAllocatePrivate\<close> leaves through \<open>exit(-1)\<close> when \<open>mmap\<close> fails; whether
  the system grants the mapping is the parameter \<open>mmapOk\<close>. A fresh mapping is all
  zeros.
\<close>

definition createFragment ::
  "nat \<Rightarrow> bool \<Rightarrow> bool \<Rightarrow> ulong \<Rightarrow> 'v AddressToPageIndexShadowMap
     \<Rightarrow> (fault \<times> 'v AddressToPageIndexShadowMap + 'v AddressToPageIndexShadowMap) option" where
  "createFragment MAX_FRAGMENTS asserttReturns mmapOk key m =
     (if lock m then None
      else (let m1 = m\<lparr>lock := True\<rparr>
            in case fragmentIndexOf m1 key of
                 Inl e \<Rightarrow> Some (Inl (e, m1))
               | Inr fragmentIndex \<Rightarrow>
                   if \<not> (unat fragmentIndex < MAX_FRAGMENTS) \<and> \<not> asserttReturns
                   then Some (Inl (AssertionFailed, m1))
                   else if unat fragmentIndex \<ge> length (startAddress m1)
                   then Some (Inl (OutOfBounds, m1))
                   else if startAddress m1 ! unat fragmentIndex \<noteq> None
                   then Some (Inr (m1\<lparr>lock := False\<rparr>))
                   else if \<not> mmapOk then Some (Inl (MmapFailed, m1))
                   else Some (Inr (m1\<lparr>startAddress :=
                                         (startAddress m1)[unat fragmentIndex := Some (\<lambda>offset. zeroBlock)],
                                       lock := False\<rparr>))))"

text \<open>
  Reading and writing the block behind a pointer: the block at the pointer's offset in
  the pointer's fragment.
\<close>

definition readBlock ::
  "'v AddressToPageIndexShadowMap \<Rightarrow> nat \<times> ulong \<Rightarrow> fault + 'v block" where
  "readBlock m dataBlock =
     (case dataBlock of (fragmentIndex, offset) \<Rightarrow>
        if fragmentIndex \<ge> length (startAddress m) then Inl OutOfBounds
        else (case startAddress m ! fragmentIndex of
                None \<Rightarrow> Inl NullDereference
              | Some frag \<Rightarrow> Inr (frag offset)))"

definition writeBlock ::
  "'v AddressToPageIndexShadowMap \<Rightarrow> nat \<times> ulong \<Rightarrow> 'v block \<Rightarrow> 'v AddressToPageIndexShadowMap" where
  "writeBlock m dataBlock b =
     (case dataBlock of (fragmentIndex, offset) \<Rightarrow>
        (case startAddress m ! fragmentIndex of
           None \<Rightarrow> m
         | Some frag \<Rightarrow>
             m\<lparr>startAddress := (startAddress m)[fragmentIndex := Some (frag(offset := b))]\<rparr>))"

text \<open>
  The first statements of \<open>insertIfAbsent\<close> and of \<open>insert\<close>: find the data block,
  creating the fragment when \<open>getDataBlock\<close> returns \<open>NULL\<close>. Both go on to write through
  the pointer, whatever the second \<open>getDataBlock\<close> returns: a \<open>NULL\<close> there is
  dereferenced. The result is the map, the pointer and the block behind it.
\<close>

definition dataBlockForInsert ::
  "nat \<Rightarrow> bool \<Rightarrow> bool \<Rightarrow> ulong \<Rightarrow> 'v AddressToPageIndexShadowMap
     \<Rightarrow> (fault \<times> 'v AddressToPageIndexShadowMap
          + 'v AddressToPageIndexShadowMap \<times> (nat \<times> ulong) \<times> 'v block) option" where
  "dataBlockForInsert MAX_FRAGMENTS asserttReturns mmapOk key m =
     (case getDataBlock MAX_FRAGMENTS key m of
        Inl e \<Rightarrow> Some (Inl (e, m))
      | Inr (Some dataBlock) \<Rightarrow>
          (case readBlock m dataBlock of
             Inl e \<Rightarrow> Some (Inl (e, m))
           | Inr b \<Rightarrow> Some (Inr (m, dataBlock, b)))
      | Inr None \<Rightarrow>
          (case createFragment MAX_FRAGMENTS asserttReturns mmapOk key m of
             None \<Rightarrow> None
           | Some (Inl f) \<Rightarrow> Some (Inl f)
           | Some (Inr m') \<Rightarrow>
               (case getDataBlock MAX_FRAGMENTS key m' of
                  Inl e \<Rightarrow> Some (Inl (e, m'))
                | Inr None \<Rightarrow> Some (Inl (NullDereference, m'))
                | Inr (Some dataBlock) \<Rightarrow>
                    (case readBlock m' dataBlock of
                       Inl e \<Rightarrow> Some (Inl (e, m'))
                     | Inr b \<Rightarrow> Some (Inr (m', dataBlock, b))))))"

text \<open>
  \<open>insertIfAbsent\<close>: \<open>None\<close> when the call never returns, a fault (with the map as it is
  then) when it ends the process or leaves defined behaviour, else the value returned
  with the map afterwards.
\<close>

definition insertIfAbsent ::
  "nat \<Rightarrow> bool \<Rightarrow> bool \<Rightarrow> 'v blockEnv \<Rightarrow> ulong \<Rightarrow> 'v \<Rightarrow> 'v AddressToPageIndexShadowMap
     \<Rightarrow> (fault \<times> 'v AddressToPageIndexShadowMap + bool \<times> 'v AddressToPageIndexShadowMap) option" where
  "insertIfAbsent MAX_FRAGMENTS asserttReturns mmapOk env key val m =
     (case dataBlockForInsert MAX_FRAGMENTS asserttReturns mmapOk key m of
        None \<Rightarrow> None
      | Some (Inl f) \<Rightarrow> Some (Inl f)
      | Some (Inr (m', dataBlock, b)) \<Rightarrow>
          (case insertIfAbsentBlock env val b of
             None \<Rightarrow> None
           | Some (won, b') \<Rightarrow> Some (Inr (won, writeBlock m' dataBlock b'))))"

text \<open>\<open>insert\<close> returns the pointer to the value: the pointer to its block here.\<close>

definition insert_map ::
  "nat \<Rightarrow> bool \<Rightarrow> bool \<Rightarrow> ulong \<Rightarrow> 'v \<Rightarrow> 'v AddressToPageIndexShadowMap
     \<Rightarrow> (fault \<times> 'v AddressToPageIndexShadowMap
          + (nat \<times> ulong) \<times> 'v AddressToPageIndexShadowMap) option" where
  "insert_map MAX_FRAGMENTS asserttReturns mmapOk key val m =
     (case dataBlockForInsert MAX_FRAGMENTS asserttReturns mmapOk key m of
        None \<Rightarrow> None
      | Some (Inl f) \<Rightarrow> Some (Inl f)
      | Some (Inr (m', dataBlock, b)) \<Rightarrow>
          Some (Inr (dataBlock,
                     writeBlock m' dataBlock (b\<lparr>stored := Some val, metaData := INSERTED\<rparr>))))"

text \<open>\<open>find\<close> returns \<open>NULL\<close> or the pointer to the value; it writes nothing.\<close>

definition find_map ::
  "nat \<Rightarrow> ulong \<Rightarrow> 'v AddressToPageIndexShadowMap \<Rightarrow> fault + (nat \<times> ulong) option" where
  "find_map MAX_FRAGMENTS key m =
     (case getDataBlock MAX_FRAGMENTS key m of
        Inl e \<Rightarrow> Inl e
      | Inr None \<Rightarrow> Inr None
      | Inr (Some dataBlock) \<Rightarrow>
          (case readBlock m dataBlock of
             Inl e \<Rightarrow> Inl e
           | Inr b \<Rightarrow> if metaData b \<noteq> INSERTED then Inr None else Inr (Some dataBlock)))"

definition remove_map ::
  "nat \<Rightarrow> ulong \<Rightarrow> 'v AddressToPageIndexShadowMap \<Rightarrow> fault + 'v AddressToPageIndexShadowMap" where
  "remove_map MAX_FRAGMENTS key m =
     (case getDataBlock MAX_FRAGMENTS key m of
        Inl e \<Rightarrow> Inl e
      | Inr None \<Rightarrow> Inr m
      | Inr (Some dataBlock) \<Rightarrow>
          (case readBlock m dataBlock of
             Inl e \<Rightarrow> Inl e
           | Inr b \<Rightarrow> Inr (writeBlock m dataBlock (b\<lparr>metaData := NOT_INSERT\<rparr>))))"


section \<open>AddressToPageIndexSingleFragShadowMap (utils/collection)\<close>

text \<open>
  One fragment, mapped by \<open>initialize\<close>. \<open>getDataBlock\<close> checks nothing (its assertion
  is commented out, "todo need check"): for every key it returns the start of the
  fragment plus the offset, and the callers read and write there. \<open>sf_startAddress\<close> is
  the memory from the start of the fragment on, read as the blocks at its byte offsets,
  those of the fragment and those behind it.
\<close>

record 'v AddressToPageIndexSingleFragShadowMap =
  sf_fragmentSize :: ulong
  sf_blockSize :: ulong
  sf_startAddress :: "'v fragment"

definition sf_hashKey :: "ulong \<Rightarrow> ulong" where
  "sf_hashKey key = getPageIndex key"

definition sf_getDataBlock :: "ulong \<Rightarrow> 'v AddressToPageIndexSingleFragShadowMap \<Rightarrow> ulong" where
  "sf_getDataBlock key m = (let index = sf_hashKey key;
                                offset = index * sf_blockSize m
                            in offset)"


text \<open>Whether the block of a key lies inside the \<open>fragmentSize\<close> bytes of the fragment.\<close>

definition sf_inFragment :: "ulong \<Rightarrow> 'v AddressToPageIndexSingleFragShadowMap \<Rightarrow> bool" where
  "sf_inFragment key m =
     (unat (sf_getDataBlock key m) + unat (sf_blockSize m) \<le> unat (sf_fragmentSize m))"


section \<open>ShadowHashMap (utils/collection/addrtopageindexshadowmap.h)\<close>

text \<open>
  The mapping of \<open>size\<close> bytes behind \<open>startAddress\<close>, read at a byte offset as a
  \<open>bool\<close> (\<open>sh_flag\<close>) or as a value (\<open>sh_value\<close>, \<open>None\<close> as long as no value has been
  stored there). Pointers are byte offsets into the mapping. \<open>sizeof(ValueType)\<close> is the
  parameter \<open>sizeofValue\<close>; \<open>sizeof(bool)\<close> is 1.
\<close>

record ('k, 'v) ShadowHashMap =
  sh_flag :: "ulong \<Rightarrow> bool"
  sh_value :: "ulong \<Rightarrow> 'v option"
  sh_size :: ulong
  hashFuncPtr :: "'k \<Rightarrow> ulong"

definition sh_hashKey :: "('k, 'v) ShadowHashMap \<Rightarrow> 'k \<Rightarrow> ulong" where
  "sh_hashKey m key = hashFuncPtr m key"

definition isInserted :: "ulong \<Rightarrow> ulong \<Rightarrow> ('k, 'v) ShadowHashMap \<Rightarrow> fault + ulong" where
  "isInserted sizeofValue index m =
     (let offset = index * (sizeofValue + 1)
      in if \<not> (offset < sh_size m) then Inl AssertionFailed else Inr offset)"

definition getValue :: "ulong \<Rightarrow> ulong \<Rightarrow> ('k, 'v) ShadowHashMap \<Rightarrow> fault + ulong" where
  "getValue sizeofValue index m =
     (let offset = index * (sizeofValue + 1) + 1
      in if \<not> (offset < sh_size m) then Inl AssertionFailed else Inr offset)"

text \<open>
  \<open>insertIfAbsent\<close> in its two parts. The first runs up to the \<open>compare_set\<close> on the
  flag, which writes \<open>true\<close> when the flag is \<open>false\<close>; its result says whether the
  \<open>compare_set\<close> succeeded. The second, \<open>ValueType *valuePtr = this->getValue(index);
  *valuePtr = value;\<close>, runs after a success. Between the two the map is as other
  threads can see it.
\<close>

definition sh_insertIfAbsent_compare_set ::
  "ulong \<Rightarrow> 'k \<Rightarrow> ('k, 'v) ShadowHashMap \<Rightarrow> fault + bool \<times> ('k, 'v) ShadowHashMap" where
  "sh_insertIfAbsent_compare_set sizeofValue key m =
     (let index = sh_hashKey m key
      in case isInserted sizeofValue index m of
           Inl e \<Rightarrow> Inl e
         | Inr flagPtr \<Rightarrow>
             if sh_flag m flagPtr = False
             then Inr (True, m\<lparr>sh_flag := (sh_flag m)(flagPtr := True)\<rparr>)
             else Inr (False, m))"

definition sh_insertIfAbsent_store ::
  "ulong \<Rightarrow> 'k \<Rightarrow> 'v \<Rightarrow> ('k, 'v) ShadowHashMap \<Rightarrow> fault + ('k, 'v) ShadowHashMap" where
  "sh_insertIfAbsent_store sizeofValue key val m =
     (let index = sh_hashKey m key
      in case getValue sizeofValue index m of
           Inl e \<Rightarrow> Inl e
         | Inr valuePtr \<Rightarrow> Inr (m\<lparr>sh_value := (sh_value m)(valuePtr \<mapsto> val)\<rparr>))"

definition sh_insertIfAbsent ::
  "ulong \<Rightarrow> 'k \<Rightarrow> 'v \<Rightarrow> ('k, 'v) ShadowHashMap \<Rightarrow> fault + bool \<times> ('k, 'v) ShadowHashMap" where
  "sh_insertIfAbsent sizeofValue key val m =
     (case sh_insertIfAbsent_compare_set sizeofValue key m of
        Inl e \<Rightarrow> Inl e
      | Inr (False, m') \<Rightarrow> Inr (False, m')
      | Inr (True, m') \<Rightarrow>
          (case sh_insertIfAbsent_store sizeofValue key val m' of
             Inl e \<Rightarrow> Inl e
           | Inr m'' \<Rightarrow> Inr (True, m'')))"

text \<open>\<open>insert\<close> stores the value, then sets the flag.\<close>

definition sh_insert ::
  "ulong \<Rightarrow> 'k \<Rightarrow> 'v \<Rightarrow> ('k, 'v) ShadowHashMap \<Rightarrow> fault + ('k, 'v) ShadowHashMap" where
  "sh_insert sizeofValue key val m =
     (let index = sh_hashKey m key
      in case getValue sizeofValue index m of
           Inl e \<Rightarrow> Inl e
         | Inr valuePtr \<Rightarrow>
             (let m' = m\<lparr>sh_value := (sh_value m)(valuePtr \<mapsto> val)\<rparr>
              in case isInserted sizeofValue index m' of
                   Inl e \<Rightarrow> Inl e
                 | Inr flagPtr \<Rightarrow> Inr (m'\<lparr>sh_flag := (sh_flag m')(flagPtr := True)\<rparr>)))"

text \<open>\<open>find\<close> returns \<open>NULL\<close> or the pointer to the value; it writes nothing.\<close>

definition sh_find :: "ulong \<Rightarrow> 'k \<Rightarrow> ('k, 'v) ShadowHashMap \<Rightarrow> fault + ulong option" where
  "sh_find sizeofValue key m =
     (let index = sh_hashKey m key
      in case isInserted sizeofValue index m of
           Inl e \<Rightarrow> Inl e
         | Inr flagPtr \<Rightarrow>
             if \<not> sh_flag m flagPtr then Inr None
             else (case getValue sizeofValue index m of
                     Inl e \<Rightarrow> Inl e
                   | Inr valuePtr \<Rightarrow> Inr (Some valuePtr)))"


section \<open>Example states\<close>

text \<open>A page record whose cache line 2 has been written \<open>n\<close> times.\<close>

definition pageWithCount :: "ulong \<Rightarrow> PageBasicAccessInfo" where
  "pageWithCount n =
     (newPageBasicAccessInfo 3)\<lparr>cacheLineWritingNumber := (replicate CACHE_NUM_IN_ONE_PAGE 0)[2 := n]\<rparr>"

text \<open>A page record all of whose counters hold the largest \<open>unsigned long\<close>.\<close>

definition pageAtLimit :: PageBasicAccessInfo where
  "pageAtLimit = \<lparr>firstTouchThreadId = 0, accessNumberByOtherThreads = - 1,
                  cacheLineWritingNumber = replicate CACHE_NUM_IN_ONE_PAGE (- 1)\<rparr>"


text \<open>
  A fresh page record, but for slot 5 of \<open>cacheLineWritingNumber\<close>, which holds the
  largest \<open>unsigned long\<close>.
\<close>

definition pageWithSlotAtLimit :: PageBasicAccessInfo where
  "pageWithSlotAtLimit =
     (newPageBasicAccessInfo 3)\<lparr>cacheLineWritingNumber := (replicate CACHE_NUM_IN_ONE_PAGE 0)[5 := - 1]\<rparr>"

text \<open>A cache line that starts at address 0, with no resident object.\<close>

definition lineAtZero :: CacheLineAccessInfo where
  "lineAtZero = \<lparr>cacheLineStartAddress = 0, threadRead = 0, threadWrite = 0,
                 residentObjectsInfoPtr = replicate CACHE_LINE_SIZE 0\<rparr>"

text \<open>
  A buffer as a memory pool can hand it out: the object pointer is \<open>NULL\<close> and the
  counters hold what an earlier use left.
\<close>

definition pooledBuffer :: "unit DiagnoseObjInfo" where
  "pooledBuffer = \<lparr>objectInfo = 0, allInvalidNumInMainThread = 7, allInvalidNumInOtherThreads = 7,
                    allAccessNumInMainThread = 7, allAccessNumInOtherThread = 7,
                    topCacheLineDetailQueue = ()\<rparr>"

text \<open>
  Other threads and the memory cell of \<open>automicIncrease\<close>: \<open>envOnce\<close> adds 5 to the
  cell once, between the read and the compare-and-exchange of the first run of the loop
  body; \<open>envAlways\<close> adds 1 between the read and the compare-and-exchange of every run.
\<close>

definition envOnce :: env where
  "envOnce n x = (if n = 1 then x + 5 else x)"

definition envAlways :: env where
  "envAlways n x = (if odd n then x + 1 else x)"

text \<open>
  Other threads and a block: \<open>envIdle\<close> leaves it alone; \<open>envFinishing\<close> is a thread
  that holds the block in \<open>INSERTING\<close>, and constructs its value 7 and stores
  \<open>INSERTED\<close> before the call's access 2.
\<close>

definition envIdle :: "'v blockEnv" where
  "envIdle n b = b"


text \<open>
  A shadow map with \<open>MAX_FRAGMENTS = 2\<close>, fragments of \<open>2 ^ 20\<close> bytes of address
  space each (256 pages, blocks of 16 bytes, 4096 bytes of mapping), none mapped yet and
  the lock free; and
  the same map with fragment 0 mapped and the block \<open>b\<close> at offset 16, the block of
  page 1.
\<close>

definition mapOfTwo :: "nat AddressToPageIndexShadowMap" where
  "mapOfTwo = \<lparr>fragmentSize = 4096, fragmentMappingBitMask = 1048575, fragmentMappingBitNum = 20,
               blockSize = 16, startAddress = [None, None], lock = False\<rparr>"


definition blockInserting :: "nat block" where
  "blockInserting = \<lparr>metaData = INSERTING, stored = None\<rparr>"

definition mapWith :: "nat block \<Rightarrow> nat AddressToPageIndexShadowMap" where
  "mapWith b = mapOfTwo\<lparr>startAddress := [Some ((\<lambda>offset. zeroBlock)(16 := b)), None]\<rparr>"

text \<open>A single-fragment map of 4096 bytes in blocks of 16, all zero.\<close>

definition fragOfZeros :: "nat AddressToPageIndexSingleFragShadowMap" where
  "fragOfZeros = \<lparr>sf_fragmentSize = 4096, sf_blockSize = 16, sf_startAddress = (\<lambda>offset. zeroBlock)\<rparr>"

text \<open>
  A \<open>ShadowHashMap\<close> of 4096 bytes for values of 8 bytes, all zero, and the same map
  with the flag of index 3 (at offset 27) set.
\<close>

definition hashMapEmpty :: "(ulong, nat) ShadowHashMap" where
  "hashMapEmpty = \<lparr>sh_flag = (\<lambda>offset. False), sh_value = (\<lambda>offset. None), sh_size = 4096,
                   hashFuncPtr = (\<lambda>key. key AND 255)\<rparr>"

definition hashMapClaimed :: "(ulong, nat) ShadowHashMap" where
  "hashMapClaimed = hashMapEmpty\<lparr>sh_flag := (sh_flag hashMapEmpty)(27 := True)\<rparr>"


section \<open>Properties of the page record\<close>

lemma getCacheIndexInsidePage_bound: "getCacheIndexInsidePage addr < CACHE_NUM_IN_ONE_PAGE"
proof -
  have "drop_bit 6 (addr AND 4095) = drop_bit 6 addr AND 63"
    by simp
  moreover have "drop_bit 6 addr AND 63 \<le> 63"
    by (rule word_and_le1)
  ultimately have "unat (drop_bit 6 (addr AND 4095)) \<le> 63"
    by (simp add: word_le_nat_alt)
  then show ?thesis
    unfolding getCacheIndexInsidePage_def CACHE_NUM_IN_ONE_PAGE_def PAGE_SIZE_def
      CACHE_LINE_SIZE_def
    by simp
qed

lemma wf_page_index:
  "wf_page r \<Longrightarrow> getCacheIndexInsidePage addr < length (cacheLineWritingNumber r)"
  by (simp add: wf_page_def getCacheIndexInsidePage_bound)

lemma wf_page_new: "wf_page (newPageBasicAccessInfo ft)"
  by (simp add: wf_page_def newPageBasicAccessInfo_def)

lemma getCacheIndexInsidePage_130: "getCacheIndexInsidePage 130 = 2"
  by (simp add: getCacheIndexInsidePage_def)

text \<open>
  C6: for every record and every accessing thread id \<open>t\<close>,
  \<open>recordAccessForPageSharing t\<close> adds exactly 1 (a 64-bit \<open>++\<close>) to
  \<open>accessNumberByOtherThreads\<close> and changes no other field when \<open>t\<close> differs from the
  record's \<open>firstTouchThreadId\<close>, and leaves the whole record unchanged when \<open>t\<close> equals
  it.
\<close>

theorem recordAccessForPageSharing_effect:
  "(ucast (firstTouchThreadId r) \<noteq> t \<longrightarrow>
      accessNumberByOtherThreads (recordAccessForPageSharing t r) = accessNumberByOtherThreads r + 1 \<and>
      firstTouchThreadId (recordAccessForPageSharing t r) = firstTouchThreadId r \<and>
      cacheLineWritingNumber (recordAccessForPageSharing t r) = cacheLineWritingNumber r) \<and>
   (ucast (firstTouchThreadId r) = t \<longrightarrow> recordAccessForPageSharing t r = r)"
  by (simp add: recordAccessForPageSharing_def)

theorem recordAccessForPageSharing_effect_witness:
  "accessNumberByOtherThreads (recordAccessForPageSharing 5 (newPageBasicAccessInfo 3)) = 1 \<and>
   firstTouchThreadId (recordAccessForPageSharing 5 (newPageBasicAccessInfo 3)) = 3 \<and>
   recordAccessForPageSharing 3 (newPageBasicAccessInfo 3) = newPageBasicAccessInfo 3"
  using recordAccessForPageSharing_effect [of "newPageBasicAccessInfo 3" 5]
    recordAccessForPageSharing_effect [of "newPageBasicAccessInfo 3" 3]
  by (simp add: newPageBasicAccessInfo_def)

text \<open>
  C7: for every well-formed record and every address, \<open>recordAccessForCacheSharing\<close>
  with \<open>E_ACCESS_WRITE\<close> returns, having added 1 to the slot
  \<open>cacheLineWritingNumber[getCacheIndexInsidePage addr]\<close> and to nothing else: every
  other slot, the length of the array and the two other fields are as before. With
  \<open>E_ACCESS_READ\<close> it changes nothing.
\<close>

theorem recordAccessForCacheSharing_effect:
  assumes "wf_page r"
  shows "(\<exists>r'. recordAccessForCacheSharing addr E_ACCESS_WRITE r = Inr r' \<and>
            cacheLineWritingNumber r' ! getCacheIndexInsidePage addr =
              cacheLineWritingNumber r ! getCacheIndexInsidePage addr + 1 \<and>
            (\<forall>j. j \<noteq> getCacheIndexInsidePage addr \<longrightarrow>
               cacheLineWritingNumber r' ! j = cacheLineWritingNumber r ! j) \<and>
            length (cacheLineWritingNumber r') = length (cacheLineWritingNumber r) \<and>
            firstTouchThreadId r' = firstTouchThreadId r \<and>
            accessNumberByOtherThreads r' = accessNumberByOtherThreads r) \<and>
         recordAccessForCacheSharing addr E_ACCESS_READ r = Inr r"
  using wf_page_index [OF assms, of addr]
  by (simp add: recordAccessForCacheSharing_def Let_def)

theorem recordAccessForCacheSharing_effect_witness:
  "wf_page (newPageBasicAccessInfo 3) \<and>
   (\<exists>r'. recordAccessForCacheSharing 130 E_ACCESS_WRITE (newPageBasicAccessInfo 3) = Inr r' \<and>
      cacheLineWritingNumber r' ! 2 = 1 \<and> cacheLineWritingNumber r' ! 1 = 0 \<and>
      accessNumberByOtherThreads r' = 0) \<and>
   recordAccessForCacheSharing 130 E_ACCESS_READ (newPageBasicAccessInfo 3) =
     Inr (newPageBasicAccessInfo 3)"
proof -
  have w: "wf_page (newPageBasicAccessInfo 3)" by (rule wf_page_new)
  have i: "getCacheIndexInsidePage 130 = 2" by (rule getCacheIndexInsidePage_130)
  have z: "cacheLineWritingNumber (newPageBasicAccessInfo 3) ! 2 = 0"
      "cacheLineWritingNumber (newPageBasicAccessInfo 3) ! 1 = 0"
      "accessNumberByOtherThreads (newPageBasicAccessInfo 3) = 0"
    by (simp_all add: newPageBasicAccessInfo_def CACHE_NUM_IN_ONE_PAGE_def PAGE_SIZE_def
        CACHE_LINE_SIZE_def)
  from recordAccessForCacheSharing_effect [OF w, of 130]
  obtain r' where r':
      "recordAccessForCacheSharing 130 E_ACCESS_WRITE (newPageBasicAccessInfo 3) = Inr r'"
      "cacheLineWritingNumber r' ! 2 = cacheLineWritingNumber (newPageBasicAccessInfo 3) ! 2 + 1"
      "\<forall>j. j \<noteq> 2 \<longrightarrow>
         cacheLineWritingNumber r' ! j = cacheLineWritingNumber (newPageBasicAccessInfo 3) ! j"
      "accessNumberByOtherThreads r' = accessNumberByOtherThreads (newPageBasicAccessInfo 3)"
    and rd: "recordAccessForCacheSharing 130 E_ACCESS_READ (newPageBasicAccessInfo 3) =
               Inr (newPageBasicAccessInfo 3)"
    unfolding i by blast
  from r'(3)
  have "cacheLineWritingNumber r' ! 1 = cacheLineWritingNumber (newPageBasicAccessInfo 3) ! 1"
    by simp
  with r' z w rd show ?thesis by simp
qed

text \<open>
  C8: for every well-formed record and every address,
  \<open>needCacheLineSharingDetailInfo addr\<close> returns, and what it returns is true exactly
  when the slot \<open>cacheLineWritingNumber[getCacheIndexInsidePage addr]\<close> is strictly
  greater than \<open>CACHE_SHARING_DETAIL_THRESHOLD\<close>; a count equal to the threshold gives
  false.
\<close>

theorem needCacheLineSharingDetailInfo_strict:
  assumes "wf_page r"
  shows "needCacheLineSharingDetailInfo T addr r =
           Inr (T < unat (cacheLineWritingNumber r ! getCacheIndexInsidePage addr))"
  using wf_page_index [OF assms, of addr]
  by (simp add: needCacheLineSharingDetailInfo_def)

theorem needCacheLineSharingDetailInfo_strict_witness:
  "wf_page (pageWithCount 5) \<and>
   needCacheLineSharingDetailInfo 5 130 (pageWithCount 5) = Inr False \<and>
   needCacheLineSharingDetailInfo 4 130 (pageWithCount 5) = Inr True"
proof -
  have w: "wf_page (pageWithCount 5)"
    by (simp add: wf_page_def pageWithCount_def)
  have c: "cacheLineWritingNumber (pageWithCount 5) ! getCacheIndexInsidePage 130 = 5"
    by (simp add: getCacheIndexInsidePage_130 pageWithCount_def CACHE_NUM_IN_ONE_PAGE_def PAGE_SIZE_def
        CACHE_LINE_SIZE_def)
  show ?thesis
    using w needCacheLineSharingDetailInfo_strict [OF w, of 5 130]
      needCacheLineSharingDetailInfo_strict [OF w, of 4 130]
    by (simp add: c)
qed

text \<open>
  C9, as the claim states it, fails where a counter holds the largest \<open>unsigned long\<close>:
  the 64-bit \<open>++\<close> of \<open>recordAccessForPageSharing\<close> takes
  \<open>accessNumberByOtherThreads\<close> from \<open>2 ^ 64 - 1\<close> to 0, and that of
  \<open>recordAccessForCacheSharing\<close> does the same to a slot of \<open>cacheLineWritingNumber\<close>.
\<close>

theorem counters_wrap_counterexample:
  "wf_page pageAtLimit \<and>
   \<not> accessNumberByOtherThreads pageAtLimit
       \<le> accessNumberByOtherThreads (recordAccessForPageSharing 1 pageAtLimit) \<and>
   recordAccessForCacheSharing 0 E_ACCESS_WRITE pageAtLimit =
     Inr (pageAtLimit\<lparr>cacheLineWritingNumber := (cacheLineWritingNumber pageAtLimit)[0 := 0]\<rparr>) \<and>
   \<not> cacheLineWritingNumber pageAtLimit ! 0 \<le> 0"
  by (simp add: pageAtLimit_def wf_page_def recordAccessForPageSharing_def
      recordAccessForCacheSharing_def getCacheIndexInsidePage_def
      CACHE_NUM_IN_ONE_PAGE_def PAGE_SIZE_def CACHE_LINE_SIZE_def)

text \<open>One operation adds 1 to the counters it increments and leaves the others.\<close>

lemma applyPageOp_step:
  assumes "wf_page r"
  shows "\<exists>r'. applyPageOp T op r = Inr r' \<and> wf_page r' \<and>
           firstTouchThreadId r' = firstTouchThreadId r \<and>
           accessNumberByOtherThreads r' =
             accessNumberByOtherThreads r + (if incrementsAccess (firstTouchThreadId r) op then 1 else 0) \<and>
           (\<forall>i<CACHE_NUM_IN_ONE_PAGE. cacheLineWritingNumber r' ! i =
              cacheLineWritingNumber r ! i + (if incrementsSlot i op then 1 else 0))"
proof (cases op)
  case (RecordAccessForPageSharing t)
  with assms show ?thesis
    by (simp add: recordAccessForPageSharing_def wf_page_def)
next
  case (RecordAccessForCacheSharing addr type)
  have len: "length (cacheLineWritingNumber r) = CACHE_NUM_IN_ONE_PAGE"
    using assms by (simp add: wf_page_def)
  from RecordAccessForCacheSharing assms wf_page_index [OF assms, of addr] len show ?thesis
    by (cases type) (simp_all add: recordAccessForCacheSharing_def Let_def wf_page_def nth_list_update)
next
  case NeedPageSharingDetailInfo
  with assms show ?thesis by simp
next
  case (NeedCacheLineSharingDetailInfo addr)
  with assms wf_page_index [OF assms, of addr] show ?thesis
    by (simp add: needCacheLineSharingDetailInfo_def Let_def)
next
  case GetFirstTouchThreadId
  with assms show ?thesis by simp
qed

text \<open>A sequence adds to each counter the number of its operations that increment it.\<close>

lemma runPageOps_counts:
  "wf_page r \<Longrightarrow>
   \<exists>r'. runPageOps T ops r = Inr r' \<and> wf_page r' \<and>
     firstTouchThreadId r' = firstTouchThreadId r \<and>
     accessNumberByOtherThreads r' =
       accessNumberByOtherThreads r
         + of_nat (length (filter (incrementsAccess (firstTouchThreadId r)) ops)) \<and>
     (\<forall>i<CACHE_NUM_IN_ONE_PAGE. cacheLineWritingNumber r' ! i =
        cacheLineWritingNumber r ! i + of_nat (length (filter (incrementsSlot i) ops)))"
proof (induction ops arbitrary: r)
  case Nil
  then show ?case by simp
next
  case (Cons op ops)
  from applyPageOp_step [OF Cons.prems, of T op]
  obtain r1 where r1: "applyPageOp T op r = Inr r1" "wf_page r1"
      "firstTouchThreadId r1 = firstTouchThreadId r"
      "accessNumberByOtherThreads r1 =
         accessNumberByOtherThreads r + (if incrementsAccess (firstTouchThreadId r) op then 1 else 0)"
      "\<And>i. i < CACHE_NUM_IN_ONE_PAGE \<Longrightarrow> cacheLineWritingNumber r1 ! i =
         cacheLineWritingNumber r ! i + (if incrementsSlot i op then 1 else 0)"
    by blast
  from Cons.IH [OF r1(2), unfolded r1(3)]
  obtain r' where r': "runPageOps T ops r1 = Inr r'" "wf_page r'"
      "firstTouchThreadId r' = firstTouchThreadId r"
      "accessNumberByOtherThreads r' =
         accessNumberByOtherThreads r1
           + of_nat (length (filter (incrementsAccess (firstTouchThreadId r)) ops))"
      "\<And>i. i < CACHE_NUM_IN_ONE_PAGE \<Longrightarrow> cacheLineWritingNumber r' ! i =
         cacheLineWritingNumber r1 ! i + of_nat (length (filter (incrementsSlot i) ops))"
    by blast
  have "runPageOps T (op # ops) r = Inr r'"
    using r1(1) r'(1) by simp
  moreover have "accessNumberByOtherThreads r' =
       accessNumberByOtherThreads r
         + of_nat (length (filter (incrementsAccess (firstTouchThreadId r)) (op # ops)))"
    using r1(4) r'(4) by simp
  moreover have "\<forall>i<CACHE_NUM_IN_ONE_PAGE. cacheLineWritingNumber r' ! i =
        cacheLineWritingNumber r ! i + of_nat (length (filter (incrementsSlot i) (op # ops)))"
    using r1(5) r'(5) by simp
  ultimately show ?case using r'(2,3) by blast
qed

lemma word_le_add_small:
  fixes x :: ulong
  assumes "unat x + n < 2 ^ 64"
  shows "x \<le> x + of_nat n"
proof -
  have "n < 2 ^ 64"
    using assms by simp
  then have "unat (of_nat n :: ulong) = n"
    by (simp add: unat_of_nat)
  then have "unat x + unat (of_nat n :: ulong) < 2 ^ LENGTH(64)"
    using assms by simp
  then have "unat (x + of_nat n) = unat x + unat (of_nat n :: ulong)"
    by (simp only: unat_add_lem)
  then show ?thesis
    by (simp add: word_le_nat_alt)
qed

lemma unat_ulong_limit: "unat (- 1 :: ulong) = 18446744073709551615"
  by (simp add: unsigned_minus_1_eq_mask mask_eq_exp_minus_1)

lemma word_le_add_one:
  fixes x :: ulong
  assumes "x \<noteq> - 1"
  shows "x \<le> x + 1"
proof -
  have "unat x \<noteq> unat (- 1 :: ulong)"
    using assms by (simp only: word_unat_eq_iff not_False_eq_True)
  moreover have "unat x < 2 ^ 64"
    using unsigned_less [of x] by simp
  ultimately have "unat x + 1 < 2 ^ 64"
    by (simp add: unat_ulong_limit)
  from word_le_add_small [OF this] show ?thesis by simp
qed

text \<open>
  C9, amended: on a well-formed record every operation
  (\<open>recordAccessForPageSharing\<close>, \<open>recordAccessForCacheSharing\<close> and the queries)
  returns and leaves \<open>accessNumberByOtherThreads\<close> and every slot of
  \<open>cacheLineWritingNumber\<close> greater than or equal to its value before, unless the
  operation increments that counter and the counter holds \<open>2 ^ 64 - 1\<close>. Every sequence
  of operations runs to its end, and a counter is then greater than or equal to its
  value before the sequence when that value plus the number of operations of the
  sequence that increment this counter is below \<open>2 ^ 64\<close>.
\<close>

theorem counters_nondecreasing_below_limit:
  assumes "wf_page r"
  shows "(\<exists>r1. applyPageOp T op r = Inr r1 \<and>
            (\<not> (incrementsAccess (firstTouchThreadId r) op \<and> accessNumberByOtherThreads r = - 1) \<longrightarrow>
               accessNumberByOtherThreads r \<le> accessNumberByOtherThreads r1) \<and>
            (\<forall>i<CACHE_NUM_IN_ONE_PAGE.
               \<not> (incrementsSlot i op \<and> cacheLineWritingNumber r ! i = - 1) \<longrightarrow>
               cacheLineWritingNumber r ! i \<le> cacheLineWritingNumber r1 ! i)) \<and>
         (\<exists>r'. runPageOps T ops r = Inr r' \<and>
            (unat (accessNumberByOtherThreads r)
               + length (filter (incrementsAccess (firstTouchThreadId r)) ops) < 2 ^ 64 \<longrightarrow>
               accessNumberByOtherThreads r \<le> accessNumberByOtherThreads r') \<and>
            (\<forall>i<CACHE_NUM_IN_ONE_PAGE.
               unat (cacheLineWritingNumber r ! i) + length (filter (incrementsSlot i) ops) < 2 ^ 64 \<longrightarrow>
               cacheLineWritingNumber r ! i \<le> cacheLineWritingNumber r' ! i))"
proof (rule conjI)
  from applyPageOp_step [OF assms, of T op]
  obtain r1 where r1: "applyPageOp T op r = Inr r1"
      "accessNumberByOtherThreads r1 =
         accessNumberByOtherThreads r + (if incrementsAccess (firstTouchThreadId r) op then 1 else 0)"
      "\<And>i. i < CACHE_NUM_IN_ONE_PAGE \<Longrightarrow> cacheLineWritingNumber r1 ! i =
         cacheLineWritingNumber r ! i + (if incrementsSlot i op then 1 else 0)"
    by blast
  have a: "accessNumberByOtherThreads r \<le> accessNumberByOtherThreads r1"
    if "\<not> (incrementsAccess (firstTouchThreadId r) op \<and> accessNumberByOtherThreads r = - 1)"
    using that r1(2) word_le_add_one [of "accessNumberByOtherThreads r"]
    by (cases "incrementsAccess (firstTouchThreadId r) op") simp_all
  have c: "cacheLineWritingNumber r ! i \<le> cacheLineWritingNumber r1 ! i"
    if "i < CACHE_NUM_IN_ONE_PAGE"
      and "\<not> (incrementsSlot i op \<and> cacheLineWritingNumber r ! i = - 1)" for i
    using that r1(3) [of i] word_le_add_one [of "cacheLineWritingNumber r ! i"]
    by (cases "incrementsSlot i op") simp_all
  from r1(1) a c
  show "\<exists>r1. applyPageOp T op r = Inr r1 \<and>
            (\<not> (incrementsAccess (firstTouchThreadId r) op \<and> accessNumberByOtherThreads r = - 1) \<longrightarrow>
               accessNumberByOtherThreads r \<le> accessNumberByOtherThreads r1) \<and>
            (\<forall>i<CACHE_NUM_IN_ONE_PAGE.
               \<not> (incrementsSlot i op \<and> cacheLineWritingNumber r ! i = - 1) \<longrightarrow>
               cacheLineWritingNumber r ! i \<le> cacheLineWritingNumber r1 ! i)"
    by blast
next
  from runPageOps_counts [OF assms, of T ops]
  obtain r' where r': "runPageOps T ops r = Inr r'"
      "accessNumberByOtherThreads r' =
         accessNumberByOtherThreads r
           + of_nat (length (filter (incrementsAccess (firstTouchThreadId r)) ops))"
      "\<And>i. i < CACHE_NUM_IN_ONE_PAGE \<Longrightarrow> cacheLineWritingNumber r' ! i =
         cacheLineWritingNumber r ! i + of_nat (length (filter (incrementsSlot i) ops))"
    by blast
  have a: "accessNumberByOtherThreads r \<le> accessNumberByOtherThreads r'"
    if "unat (accessNumberByOtherThreads r)
          + length (filter (incrementsAccess (firstTouchThreadId r)) ops) < 2 ^ 64"
    using word_le_add_small [OF that] r'(2) by simp
  have c: "cacheLineWritingNumber r ! i \<le> cacheLineWritingNumber r' ! i"
    if "i < CACHE_NUM_IN_ONE_PAGE"
      and "unat (cacheLineWritingNumber r ! i) + length (filter (incrementsSlot i) ops) < 2 ^ 64" for i
    using word_le_add_small [OF that(2)] r'(3) [OF that(1)] by simp
  from r'(1) a c
  show "\<exists>r'. runPageOps T ops r = Inr r' \<and>
            (unat (accessNumberByOtherThreads r)
               + length (filter (incrementsAccess (firstTouchThreadId r)) ops) < 2 ^ 64 \<longrightarrow>
               accessNumberByOtherThreads r \<le> accessNumberByOtherThreads r') \<and>
            (\<forall>i<CACHE_NUM_IN_ONE_PAGE.
               unat (cacheLineWritingNumber r ! i) + length (filter (incrementsSlot i) ops) < 2 ^ 64 \<longrightarrow>
               cacheLineWritingNumber r ! i \<le> cacheLineWritingNumber r' ! i)"
    by blast
qed

lemma wf_pageWithSlotAtLimit: "wf_page pageWithSlotAtLimit"
  by (simp add: wf_page_def pageWithSlotAtLimit_def)

lemma pageWithSlotAtLimit_values:
  "firstTouchThreadId pageWithSlotAtLimit = 3 \<and>
   accessNumberByOtherThreads pageWithSlotAtLimit = 0 \<and>
   cacheLineWritingNumber pageWithSlotAtLimit ! 2 = 0 \<and>
   cacheLineWritingNumber pageWithSlotAtLimit ! 5 = - 1"
  by (simp add: pageWithSlotAtLimit_def newPageBasicAccessInfo_def CACHE_NUM_IN_ONE_PAGE_def
      PAGE_SIZE_def CACHE_LINE_SIZE_def)

theorem counters_nondecreasing_below_limit_witness:
  "wf_page pageWithSlotAtLimit \<and>
   (\<exists>r1. applyPageOp 10 (RecordAccessForCacheSharing 130 E_ACCESS_WRITE) pageWithSlotAtLimit = Inr r1 \<and>
      cacheLineWritingNumber pageWithSlotAtLimit ! 2 \<le> cacheLineWritingNumber r1 ! 2 \<and>
      cacheLineWritingNumber pageWithSlotAtLimit ! 5 \<le> cacheLineWritingNumber r1 ! 5) \<and>
   (\<exists>r'. runPageOps 10 [RecordAccessForPageSharing 5, RecordAccessForCacheSharing 130 E_ACCESS_WRITE,
                         NeedCacheLineSharingDetailInfo 130] pageWithSlotAtLimit = Inr r' \<and>
      accessNumberByOtherThreads pageWithSlotAtLimit \<le> accessNumberByOtherThreads r' \<and>
      cacheLineWritingNumber pageWithSlotAtLimit ! 2 \<le> cacheLineWritingNumber r' ! 2 \<and>
      cacheLineWritingNumber pageWithSlotAtLimit ! 5 \<le> cacheLineWritingNumber r' ! 5)"
proof -
  note w = wf_pageWithSlotAtLimit
  note v = pageWithSlotAtLimit_values
  have n: "(2::nat) < CACHE_NUM_IN_ONE_PAGE" "(5::nat) < CACHE_NUM_IN_ONE_PAGE"
    by (simp_all add: CACHE_NUM_IN_ONE_PAGE_def PAGE_SIZE_def CACHE_LINE_SIZE_def)
  from counters_nondecreasing_below_limit [OF w, of 10 "RecordAccessForCacheSharing 130 E_ACCESS_WRITE"
      "[RecordAccessForPageSharing 5, RecordAccessForCacheSharing 130 E_ACCESS_WRITE,
        NeedCacheLineSharingDetailInfo 130]"]
  obtain r1 r' where
      one: "applyPageOp 10 (RecordAccessForCacheSharing 130 E_ACCESS_WRITE) pageWithSlotAtLimit = Inr r1"
        "\<forall>i<CACHE_NUM_IN_ONE_PAGE.
           \<not> (incrementsSlot i (RecordAccessForCacheSharing 130 E_ACCESS_WRITE) \<and>
              cacheLineWritingNumber pageWithSlotAtLimit ! i = - 1) \<longrightarrow>
           cacheLineWritingNumber pageWithSlotAtLimit ! i \<le> cacheLineWritingNumber r1 ! i"
    and seq: "runPageOps 10 [RecordAccessForPageSharing 5, RecordAccessForCacheSharing 130 E_ACCESS_WRITE,
                         NeedCacheLineSharingDetailInfo 130] pageWithSlotAtLimit = Inr r'"
        "unat (accessNumberByOtherThreads pageWithSlotAtLimit)
           + length (filter (incrementsAccess (firstTouchThreadId pageWithSlotAtLimit))
               [RecordAccessForPageSharing 5, RecordAccessForCacheSharing 130 E_ACCESS_WRITE,
                NeedCacheLineSharingDetailInfo 130]) < 2 ^ 64 \<longrightarrow>
         accessNumberByOtherThreads pageWithSlotAtLimit \<le> accessNumberByOtherThreads r'"
        "\<forall>i<CACHE_NUM_IN_ONE_PAGE.
           unat (cacheLineWritingNumber pageWithSlotAtLimit ! i)
             + length (filter (incrementsSlot i)
                 [RecordAccessForPageSharing 5, RecordAccessForCacheSharing 130 E_ACCESS_WRITE,
                  NeedCacheLineSharingDetailInfo 130]) < 2 ^ 64 \<longrightarrow>
           cacheLineWritingNumber pageWithSlotAtLimit ! i \<le> cacheLineWritingNumber r' ! i"
    by blast
  have o2: "cacheLineWritingNumber pageWithSlotAtLimit ! 2 \<le> cacheLineWritingNumber r1 ! 2"
  proof -
    have "cacheLineWritingNumber pageWithSlotAtLimit ! 2 \<noteq> - 1"
      using v by simp
    with one(2) n(1) show ?thesis by blast
  qed
  have o5: "cacheLineWritingNumber pageWithSlotAtLimit ! 5 \<le> cacheLineWritingNumber r1 ! 5"
  proof -
    have "\<not> incrementsSlot 5 (RecordAccessForCacheSharing 130 E_ACCESS_WRITE)"
      by (simp add: getCacheIndexInsidePage_130)
    with one(2) n(2) show ?thesis by blast
  qed
  have sa: "accessNumberByOtherThreads pageWithSlotAtLimit \<le> accessNumberByOtherThreads r'"
    using seq(2) v by simp
  have s2: "cacheLineWritingNumber pageWithSlotAtLimit ! 2 \<le> cacheLineWritingNumber r' ! 2"
  proof -
    have "unat (cacheLineWritingNumber pageWithSlotAtLimit ! 2)
            + length (filter (incrementsSlot 2)
                [RecordAccessForPageSharing 5, RecordAccessForCacheSharing 130 E_ACCESS_WRITE,
                 NeedCacheLineSharingDetailInfo 130]) < 2 ^ 64"
      using v by (simp add: getCacheIndexInsidePage_130)
    with seq(3) n(1) show ?thesis by blast
  qed
  have s5: "cacheLineWritingNumber pageWithSlotAtLimit ! 5 \<le> cacheLineWritingNumber r' ! 5"
  proof -
    have "unat (cacheLineWritingNumber pageWithSlotAtLimit ! 5)
            + length (filter (incrementsSlot 5)
                [RecordAccessForPageSharing 5, RecordAccessForCacheSharing 130 E_ACCESS_WRITE,
                 NeedCacheLineSharingDetailInfo 130]) < 2 ^ 64"
      using v by (simp add: getCacheIndexInsidePage_130 unat_ulong_limit)
    with seq(3) n(2) show ?thesis by blast
  qed
  from w one(1) seq(1) o2 o5 sa s2 s5 show ?thesis by blast
qed


section \<open>Properties of CacheLineAccessInfo\<close>

text \<open>
  Inside the cache line (and when the line does not end the address space) both
  assertions hold and the read is in bounds.
\<close>

lemma findObjectInCacheLine_inside:
  assumes "wf_cacheLine c"
    and "unat (cacheLineStartAddress c) + CACHE_LINE_SIZE < 2 ^ 64"
    and "cacheLineStartAddress c \<le> address"
    and "unat address < unat (cacheLineStartAddress c) + CACHE_LINE_SIZE"
  shows "findObjectInCacheLine address c =
           Inr (residentObjectsInfoPtr c ! (unat address - unat (cacheLineStartAddress c)))"
proof -
  have sub: "unat (address - cacheLineStartAddress c) = unat address - unat (cacheLineStartAddress c)"
    using assms(3) by (simp add: unat_sub)
  have u: "unat (cacheLineStartAddress c + 64) = unat (cacheLineStartAddress c) + 64"
    using assms(2) unat_add_lem [of "cacheLineStartAddress c" 64]
    by (simp add: CACHE_LINE_SIZE_def)
  have le: "address \<le> cacheLineStartAddress c + 64"
    using assms(4) u by (simp add: word_le_nat_alt CACHE_LINE_SIZE_def)
  have "unat address - unat (cacheLineStartAddress c) < length (residentObjectsInfoPtr c)"
    using assms(1,4) by (auto simp: wf_cacheLine_def CACHE_LINE_SIZE_def)
  with assms(3) le sub show ?thesis
    by (simp add: findObjectInCacheLine_def CACHE_LINE_SIZE_def)
qed

text \<open>
  One past the last byte of the line the second assertion, which compares with \<open><=\<close>,
  still holds, and the index is \<open>CACHE_LINE_SIZE\<close>.
\<close>

lemma findObjectInCacheLine_line_end:
  assumes "wf_cacheLine c"
    and "unat (cacheLineStartAddress c) + CACHE_LINE_SIZE < 2 ^ 64"
  shows "findObjectInCacheLine (cacheLineStartAddress c + of_nat CACHE_LINE_SIZE) c = Inl OutOfBounds"
proof -
  have u: "unat (cacheLineStartAddress c + 64) = unat (cacheLineStartAddress c) + 64"
    using assms(2) unat_add_lem [of "cacheLineStartAddress c" 64]
    by (simp add: CACHE_LINE_SIZE_def)
  then have "cacheLineStartAddress c \<le> cacheLineStartAddress c + 64"
    by (simp add: word_le_nat_alt)
  then show ?thesis
    using assms(1)
    by (simp add: findObjectInCacheLine_def wf_cacheLine_def CACHE_LINE_SIZE_def)
qed

text \<open>
  C10: the claim is that every address the two assertions of \<open>findObjectInCacheLine\<close>
  accept gives an index inside \<open>residentObjectsInfoPtr\<close>. The code accepts
  \<open>address = cacheLineStartAddress + CACHE_LINE_SIZE\<close>: for the line at address 0 and
  the address 64 both assertions hold, the index is 64, and the read is outside the 64
  elements of the array.
\<close>

theorem findObjectInCacheLine_at_line_end:
  "wf_cacheLine lineAtZero \<and> findObjectInCacheLine 64 lineAtZero = Inl OutOfBounds"
  by (simp add: wf_cacheLine_def lineAtZero_def findObjectInCacheLine_def CACHE_LINE_SIZE_def)


section \<open>Properties of DiagnoseObjInfo\<close>

text \<open>
  Whatever the buffer and the pointer passed: the four counters are zero, and the
  \<open>objectInfo\<close> field is the buffer's, not the pointer.
\<close>

lemma createNewDiagnoseObjInfo_keeps_buffer:
  "objectInfo (createNewDiagnoseObjInfo buff q p) = objectInfo buff \<and>
   allInvalidNumInMainThread (createNewDiagnoseObjInfo buff q p) = 0 \<and>
   allInvalidNumInOtherThreads (createNewDiagnoseObjInfo buff q p) = 0 \<and>
   allAccessNumInMainThread (createNewDiagnoseObjInfo buff q p) = 0 \<and>
   allAccessNumInOtherThread (createNewDiagnoseObjInfo buff q p) = 0"
  by (simp add: createNewDiagnoseObjInfo_def DiagnoseObjInfo_ctor_def)

text \<open>
  C3: the claim is that the object \<open>createNewDiagnoseObjInfo o\<close> returns has \<open>o\<close> in
  its \<open>objectInfo\<close> field and zero in its four counters. On a pooled buffer whose
  pointer field is \<open>NULL\<close>, with \<open>o = 4096\<close>, the code returns an object whose counters
  are zero and whose \<open>objectInfo\<close> is still \<open>NULL\<close>.
\<close>

theorem createNewDiagnoseObjInfo_at_pooledBuffer:
  "objectInfo (createNewDiagnoseObjInfo pooledBuffer () 4096) = 0 \<and>
   objectInfo (createNewDiagnoseObjInfo pooledBuffer () 4096) \<noteq> 4096 \<and>
   allInvalidNumInMainThread (createNewDiagnoseObjInfo pooledBuffer () 4096) = 0 \<and>
   allInvalidNumInOtherThreads (createNewDiagnoseObjInfo pooledBuffer () 4096) = 0 \<and>
   allAccessNumInMainThread (createNewDiagnoseObjInfo pooledBuffer () 4096) = 0 \<and>
   allAccessNumInOtherThread (createNewDiagnoseObjInfo pooledBuffer () 4096) = 0"
  by (simp add: createNewDiagnoseObjInfo_def DiagnoseObjInfo_ctor_def pooledBuffer_def)


section \<open>Properties of automicIncrease\<close>

lemma attempt_cases:
  "attempt env d k (cellBefore env k mem0) =
     (if casSucceeds env k mem0
      then (Some (valueRead env k mem0 + d), valueRead env k mem0 + d)
      else (None, cellBefore env (Suc k) mem0))"
  by (simp add: attempt_def casSucceeds_def valueRead_def Let_def)

lemma retryBounded_first_success:
  assumes "\<forall>j. k \<le> j \<and> j < n \<longrightarrow> \<not> casSucceeds env j mem0"
    and "casSucceeds env n mem0" and "k \<le> n" and "int n < retry_num"
  shows "retryBounded env d retry_num (int k) (cellBefore env k mem0) =
           (valueRead env n mem0 + d, valueRead env n mem0 + d)"
  using assms
proof (induction "n - k" arbitrary: k)
  case 0
  then have "k = n" by simp
  with 0 show ?case
    by (subst retryBounded.simps) (simp add: attempt_cases)
next
  case (Suc m)
  then have "k < n" by simp
  with Suc.prems have f: "\<not> casSucceeds env k mem0" by simp
  have "retryBounded env d retry_num (int (Suc k)) (cellBefore env (Suc k) mem0) =
          (valueRead env n mem0 + d, valueRead env n mem0 + d)"
    using Suc.hyps(2) Suc.prems \<open>k < n\<close> by (intro Suc.hyps(1)) auto
  moreover have lt: "int k < retry_num" using \<open>k < n\<close> Suc.prems(4) by simp
  have "retryBounded env d retry_num (int k) (cellBefore env k mem0) =
          retryBounded env d retry_num (int k + 1) (cellBefore env (Suc k) mem0)"
    using f lt by (subst retryBounded.simps) (simp add: attempt_cases del: cellBefore.simps)
  moreover have "int k + 1 = int (Suc k)" by simp
  ultimately show ?case by simp
qed

lemma retryBounded_all_fail:
  assumes "\<forall>j. k \<le> j \<and> int j < retry_num \<longrightarrow> \<not> casSucceeds env j mem0"
    and "int k \<le> retry_num"
  shows "retryBounded env d retry_num (int k) (cellBefore env k mem0) =
           (- 1, cellBefore env (nat retry_num) mem0)"
  using assms
proof (induction "nat retry_num - k" arbitrary: k)
  case 0
  then have "int k = retry_num" by simp
  then have "nat retry_num = k" by simp
  with \<open>int k = retry_num\<close> show ?case
    by (subst retryBounded.simps) simp
next
  case (Suc m)
  then have lt: "int k < retry_num" by simp
  with Suc.prems have f: "\<not> casSucceeds env k mem0" by simp
  have "retryBounded env d retry_num (int (Suc k)) (cellBefore env (Suc k) mem0) =
          (- 1, cellBefore env (nat retry_num) mem0)"
    using Suc.hyps(2) Suc.prems lt by (intro Suc.hyps(1)) auto
  moreover have "retryBounded env d retry_num (int k) (cellBefore env k mem0) =
          retryBounded env d retry_num (int k + 1) (cellBefore env (Suc k) mem0)"
    using f lt by (subst retryBounded.simps) (simp add: attempt_cases del: cellBefore.simps)
  moreover have "int k + 1 = int (Suc k)" by simp
  ultimately show ?case by simp
qed

lemma retryForever_first_success:
  assumes "\<forall>j. k \<le> j \<and> j < n \<longrightarrow> \<not> casSucceeds env j mem0"
    and "casSucceeds env n mem0" and "k \<le> n"
  shows "retryForever env d k (cellBefore env k mem0) =
           Some (valueRead env n mem0 + d, valueRead env n mem0 + d)"
  using assms
proof (induction "n - k" arbitrary: k)
  case 0
  then have "k = n" by simp
  with 0 show ?case
    by (subst retryForever.simps) (simp add: attempt_cases)
next
  case (Suc m)
  then have "k < n" by simp
  with Suc.prems have f: "\<not> casSucceeds env k mem0" by simp
  have "retryForever env d (Suc k) (cellBefore env (Suc k) mem0) =
          Some (valueRead env n mem0 + d, valueRead env n mem0 + d)"
    using Suc.hyps(2) Suc.prems \<open>k < n\<close> by (intro Suc.hyps(1)) auto
  moreover have "retryForever env d k (cellBefore env k mem0) =
          retryForever env d (Suc k) (cellBefore env (Suc k) mem0)"
    using f by (subst retryForever.simps) (simp add: attempt_cases del: cellBefore.simps)
  ultimately show ?case by simp
qed

lemma retryForever_Some_succeeds:
  assumes "retryForever env d k mem = Some y"
  shows "\<forall>mem0. mem = cellBefore env k mem0 \<longrightarrow> (\<exists>j\<ge>k. casSucceeds env j mem0)"
proof (rule retryForever.raw_induct
    [where P = "\<lambda>env d k mem y. \<forall>mem0. mem = cellBefore env k mem0 \<longrightarrow> (\<exists>j\<ge>k. casSucceeds env j mem0)",
      OF _ assms])
  fix rf :: "env \<Rightarrow> ulong \<Rightarrow> nat \<Rightarrow> ulong \<Rightarrow> (ulong \<times> ulong) option"
  fix env d k mem y
  assume IH: "\<And>env d k mem y. rf env d k mem = Some y \<Longrightarrow>
                \<forall>mem0. mem = cellBefore env k mem0 \<longrightarrow> (\<exists>j\<ge>k. casSucceeds env j mem0)"
    and eq: "(case attempt env d k mem of
                (None, mem') \<Rightarrow> rf env d (Suc k) mem'
              | (Some v, mem') \<Rightarrow> Some (v, mem')) = Some y"
  show "\<forall>mem0. mem = cellBefore env k mem0 \<longrightarrow> (\<exists>j\<ge>k. casSucceeds env j mem0)"
  proof (intro allI impI)
    fix mem0
    assume m: "mem = cellBefore env k mem0"
    show "\<exists>j\<ge>k. casSucceeds env j mem0"
    proof (cases "casSucceeds env k mem0")
      case True
      then show ?thesis by blast
    next
      case False
      with eq m have "rf env d (Suc k) (cellBefore env (Suc k) mem0) = Some y"
        by (simp add: attempt_cases del: cellBefore.simps)
      from IH [OF this] have "\<exists>j\<ge>Suc k. casSucceeds env j mem0" by blast
      then show ?thesis using Suc_leD by blast
    qed
  qed
qed

lemma retryForever_never:
  assumes "\<forall>j. \<not> casSucceeds env j mem0"
  shows "retryForever env d 0 mem0 = None"
proof (cases "retryForever env d 0 mem0")
  case None
  then show ?thesis .
next
  case (Some y)
  from retryForever_Some_succeeds [OF this] have "\<exists>j\<ge>0. casSucceeds env j mem0" by simp
  with assms show ?thesis by blast
qed

text \<open>
  C5: \<open>automicIncrease\<close> returns the value after the addition, the value read plus
  \<open>increaseNumber\<close>, and leaves it in the cell, when the compare-and-exchange of a run
  \<open>k\<close> of the loop body succeeds, every earlier one having failed, and \<open>k\<close> is within
  the \<open>retry_num\<close> runs or \<open>retry_num\<close> is negative. When \<open>retry_num\<close> is not negative
  and the compare-and-exchange of each of the \<open>retry_num\<close> runs fails, it returns -1 and
  the cell holds what the other threads made of it, nothing added. When \<open>retry_num\<close> is
  negative and no compare-and-exchange ever succeeds, it does not return.
\<close>

theorem automicIncrease_result:
  "((\<forall>j<k. \<not> casSucceeds env j mem) \<and> casSucceeds env k mem \<and> (retry_num < 0 \<or> int k < retry_num) \<longrightarrow>
      automicIncrease env mem d retry_num =
        Some (valueRead env k mem + d, valueRead env k mem + d)) \<and>
   (0 \<le> retry_num \<and> (\<forall>j. int j < retry_num \<longrightarrow> \<not> casSucceeds env j mem) \<longrightarrow>
      automicIncrease env mem d retry_num = Some (- 1, cellBefore env (nat retry_num) mem)) \<and>
   (retry_num < 0 \<and> (\<forall>j. \<not> casSucceeds env j mem) \<longrightarrow>
      automicIncrease env mem d retry_num = None)"
proof (intro conjI impI)
  assume a: "(\<forall>j<k. \<not> casSucceeds env j mem) \<and> casSucceeds env k mem \<and> (retry_num < 0 \<or> int k < retry_num)"
  show "automicIncrease env mem d retry_num = Some (valueRead env k mem + d, valueRead env k mem + d)"
  proof (cases "retry_num < 0")
    case True
    with a retryForever_first_success [of 0 k env mem d] show ?thesis
      by (simp add: automicIncrease_def)
  next
    case False
    with a retryBounded_first_success [of 0 k env mem retry_num d] show ?thesis
      by (simp add: automicIncrease_def)
  qed
next
  assume a: "0 \<le> retry_num \<and> (\<forall>j. int j < retry_num \<longrightarrow> \<not> casSucceeds env j mem)"
  with retryBounded_all_fail [of 0 retry_num env mem d]
  show "automicIncrease env mem d retry_num = Some (- 1, cellBefore env (nat retry_num) mem)"
    by (simp add: automicIncrease_def)
next
  assume "retry_num < 0 \<and> (\<forall>j. \<not> casSucceeds env j mem)"
  with retryForever_never [of env mem d]
  show "automicIncrease env mem d retry_num = None"
    by (simp add: automicIncrease_def)
qed

lemma envAlways_fails: "\<not> casSucceeds envAlways j mem"
  by (simp add: casSucceeds_def envAlways_def)

lemma envOnce_0: "\<not> casSucceeds envOnce 0 10"
  by (simp add: casSucceeds_def valueRead_def envOnce_def)

lemma envOnce_1: "casSucceeds envOnce 1 10 \<and> valueRead envOnce 1 10 = 15"
  by (simp add: casSucceeds_def valueRead_def envOnce_def)

lemma cellBefore_envAlways: "cellBefore envAlways k mem = mem + of_nat k"
  by (induction k) (simp_all add: envAlways_def)

theorem automicIncrease_result_witness:
  "automicIncrease envOnce 10 3 5 = Some (18, 18) \<and>
   automicIncrease envOnce 10 3 (- 1) = Some (18, 18) \<and>
   automicIncrease envOnce 10 3 1 = Some (- 1, 15) \<and>
   automicIncrease envAlways 10 3 3 = Some (- 1, 13) \<and>
   automicIncrease envAlways 10 3 (- 1) = None"
proof -
  have f0: "\<forall>j<1. \<not> casSucceeds envOnce j 10"
    using envOnce_0 by simp
  have f1: "\<forall>j. int j < 1 \<longrightarrow> \<not> casSucceeds envOnce j 10"
    using envOnce_0 by simp
  have c1: "cellBefore envOnce (nat 1) 10 = 15"
    by (simp add: envOnce_def)
  have c3: "cellBefore envAlways (nat 3) 10 = 13"
    by (simp add: cellBefore_envAlways)
  have w1: "automicIncrease envOnce 10 3 5 = Some (18, 18)"
    using automicIncrease_result [where env = envOnce and mem = 10 and d = 3 and k = 1 and retry_num = 5]
      f0 envOnce_1
    by simp
  have w2: "automicIncrease envOnce 10 3 (- 1) = Some (18, 18)"
    using automicIncrease_result [where env = envOnce and mem = 10 and d = 3 and k = 1 and retry_num = "- 1"]
      f0 envOnce_1
    by simp
  have w3: "automicIncrease envOnce 10 3 1 = Some (- 1, 15)"
    using automicIncrease_result [where env = envOnce and mem = 10 and d = 3 and retry_num = 1]
      f1 c1
    by simp
  have w4: "automicIncrease envAlways 10 3 3 = Some (- 1, 13)"
    using automicIncrease_result [where env = envAlways and mem = 10 and d = 3 and retry_num = 3]
      envAlways_fails c3
    by simp
  have w5: "automicIncrease envAlways 10 3 (- 1) = None"
    using automicIncrease_result [where env = envAlways and mem = 10 and d = 3 and retry_num = "- 1"]
      envAlways_fails
    by simp
  from w1 w2 w3 w4 w5 show ?thesis by blast
qed


section \<open>Properties of the shadow maps\<close>












text \<open>
  Every key whose fragment index is below \<open>MAX_FRAGMENTS\<close> reaches its data block, in the
  fragment of that index at the offset of its page, when the fragment is mapped or the
  system grants the mapping.
\<close>

lemma fragmentIndexOf_same:
  "fragmentMappingBitNum m' = fragmentMappingBitNum m \<Longrightarrow>
   fragmentIndexOf m' key = fragmentIndexOf m key"
  by (simp add: fragmentIndexOf_def)



lemma fragmentIndexOf_mapWith: "fragmentIndexOf (mapWith b) 4096 = Inr 0"
  by (simp add: fragmentIndexOf_def mapOfTwo_def mapWith_def)

lemma hashKey_mapWith: "hashKey (mapWith b) 4096 = 1"
  by (simp add: hashKey_def mapWith_def mapOfTwo_def getPageIndex_def)

lemma getDataBlock_mapWith: "getDataBlock 2 4096 (mapWith b) = Inr (Some (0, 16))"
  by (simp add: getDataBlock_def fragmentIndexOf_mapWith hashKey_mapWith)
    (simp add: mapWith_def mapOfTwo_def)

lemma readBlock_mapWith: "readBlock (mapWith b) (0, 16) = Inr b"
  by (simp add: readBlock_def mapWith_def mapOfTwo_def)







lemma wf_mapOfTwo: "wf_map 2 mapOfTwo"
  by (simp add: wf_map_def mapOfTwo_def)


lemma sf_getDataBlock_far: "sf_getDataBlock 1048576 fragOfZeros = 4096"
  by (simp add: sf_getDataBlock_def sf_hashKey_def getPageIndex_def fragOfZeros_def)



text \<open>
  In the example fragment, of 4096 bytes, the key \<open>2 ^ 20\<close> has its block behind the
  fragment.
\<close>

lemma sf_inFragment_far: "\<not> sf_inFragment 1048576 fragOfZeros"
  by (simp add: sf_inFragment_def sf_getDataBlock_far) (simp add: fragOfZeros_def)



text \<open>
  A key whose fragment index is not below \<open>MAX_FRAGMENTS\<close>: \<open>getDataBlock\<close> returns
  \<open>NULL\<close>, and \<open>createFragment\<close>, having taken the lock, fails its assertion.
\<close>

lemma out_of_range_getDataBlock:
  assumes "fragmentIndexOf m key = Inr fragmentIndex" and "MAX_FRAGMENTS \<le> unat fragmentIndex"
  shows "getDataBlock MAX_FRAGMENTS key m = Inr None"
  using assms by (simp add: getDataBlock_def)

lemma out_of_range_createFragment:
  assumes "wf_map MAX_FRAGMENTS m"
    and "fragmentIndexOf m key = Inr fragmentIndex" and "MAX_FRAGMENTS \<le> unat fragmentIndex"
  shows "createFragment MAX_FRAGMENTS asserttReturns mmapOk key m =
           Some (Inl (if asserttReturns then OutOfBounds else AssertionFailed, m\<lparr>lock := True\<rparr>))"
proof -
  have "fragmentIndexOf (m\<lparr>lock := True\<rparr>) key = Inr fragmentIndex"
    using assms(2) fragmentIndexOf_same [of "m\<lparr>lock := True\<rparr>" m key] by simp
  with assms(1,3) show ?thesis
    by (simp add: createFragment_def wf_map_def Let_def)
qed

lemma out_of_range_dataBlockForInsert:
  assumes "wf_map MAX_FRAGMENTS m"
    and "fragmentIndexOf m key = Inr fragmentIndex" and "MAX_FRAGMENTS \<le> unat fragmentIndex"
  shows "dataBlockForInsert MAX_FRAGMENTS asserttReturns mmapOk key m =
           Some (Inl (if asserttReturns then OutOfBounds else AssertionFailed, m\<lparr>lock := True\<rparr>))"
  by (simp add: dataBlockForInsert_def out_of_range_getDataBlock [OF assms(2,3)]
      out_of_range_createFragment [OF assms])

lemma out_of_range_lock_held:
  assumes "lock m"
    and "fragmentIndexOf m key = Inr fragmentIndex" and "MAX_FRAGMENTS \<le> unat fragmentIndex"
  shows "dataBlockForInsert MAX_FRAGMENTS asserttReturns mmapOk key m = None"
  using assms(1)
  by (simp add: dataBlockForInsert_def out_of_range_getDataBlock [OF assms(2,3)] createFragment_def)

lemma fragmentIndexOf_mapOfTwo_third: "fragmentIndexOf mapOfTwo 2097152 = Inr 2"
  by (simp add: fragmentIndexOf_def mapOfTwo_def)

lemma fragmentIndexOf_mapOfTwo_fourth: "fragmentIndexOf mapOfTwo 3145728 = Inr 3"
  by (simp add: fragmentIndexOf_def mapOfTwo_def)

lemma fragmentIndexOf_mapOfTwo_locked:
  "fragmentIndexOf (mapOfTwo\<lparr>lock := True\<rparr>) 3145728 = Inr 3"
  by (simp add: fragmentIndexOf_def mapOfTwo_def)

text \<open>
  C1, as the claim states it, fails for \<open>insertIfAbsent\<close> and \<open>insert\<close>: on a map of
  two fragments of \<open>2 ^ 20\<close> bytes of address space whose lock is free, the key
  \<open>2 * 2 ^ 20\<close> has the fragment index 2, and neither call returns: \<open>createFragment\<close>
  takes the lock and fails its assertion. Where \<open>Asserts::assertt\<close> does not return,
  the call ends there; where it returns, the next statement reads \<open>startAddress[2]\<close>,
  outside the array. In both cases the lock of the map is left held.
\<close>

theorem insert_out_of_range_counterexample:
  "wf_map 2 mapOfTwo \<and> fragmentIndexOf mapOfTwo 2097152 = Inr 2 \<and>
   insertIfAbsent 2 False True envIdle 2097152 42 mapOfTwo =
     Some (Inl (AssertionFailed, mapOfTwo\<lparr>lock := True\<rparr>)) \<and>
   insertIfAbsent 2 True True envIdle 2097152 42 mapOfTwo =
     Some (Inl (OutOfBounds, mapOfTwo\<lparr>lock := True\<rparr>)) \<and>
   insert_map 2 False True 2097152 42 mapOfTwo =
     Some (Inl (AssertionFailed, mapOfTwo\<lparr>lock := True\<rparr>)) \<and>
   insert_map 2 True True 2097152 42 mapOfTwo =
     Some (Inl (OutOfBounds, mapOfTwo\<lparr>lock := True\<rparr>)) \<and>
   lock (mapOfTwo\<lparr>lock := True\<rparr>) \<noteq> lock mapOfTwo"
proof -
  note d = out_of_range_dataBlockForInsert [OF wf_mapOfTwo fragmentIndexOf_mapOfTwo_third]
  have u: "2 \<le> unat (2 :: uint)" by simp
  have l: "lock (mapOfTwo\<lparr>lock := True\<rparr>) \<noteq> lock mapOfTwo"
    by (simp add: mapOfTwo_def)
  show ?thesis
    using wf_mapOfTwo fragmentIndexOf_mapOfTwo_third l
    by (simp add: insertIfAbsent_def insert_map_def d [OF u])
qed

text \<open>
  C1, amended: for every key whose fragment index, as \<open>getDataBlock\<close> and
  \<open>createFragment\<close> compute it (the shifted key cut to an \<open>unsigned int\<close>), is greater
  than or equal to \<open>MAX_FRAGMENTS\<close>, \<open>find\<close> drops the access, returning \<open>NULL\<close> (it
  writes nothing). \<open>insertIfAbsent\<close> and \<open>insert\<close> do not return: on a map whose lock
  is free, \<open>createFragment\<close> takes the lock and fails its assertion; the call ends there
  where \<open>Asserts::assertt\<close> does not return, and at the read of
  \<open>startAddress[fragmentIndex]\<close> outside the array where it returns, in both cases with
  the lock held and everything else of the map as before. On a map whose lock is held,
  the calls, running alone, wait for the lock forever.
\<close>

theorem out_of_range_key:
  assumes "fragmentIndexOf m key = Inr fragmentIndex" and "MAX_FRAGMENTS \<le> unat fragmentIndex"
  shows "find_map MAX_FRAGMENTS key m = Inr None \<and>
         (wf_map MAX_FRAGMENTS m \<longrightarrow>
            insertIfAbsent MAX_FRAGMENTS asserttReturns mmapOk env key val m =
              Some (Inl (if asserttReturns then OutOfBounds else AssertionFailed, m\<lparr>lock := True\<rparr>)) \<and>
            insert_map MAX_FRAGMENTS asserttReturns mmapOk key val m =
              Some (Inl (if asserttReturns then OutOfBounds else AssertionFailed, m\<lparr>lock := True\<rparr>))) \<and>
         (lock m \<longrightarrow>
            insertIfAbsent MAX_FRAGMENTS asserttReturns mmapOk env key val m = None \<and>
            insert_map MAX_FRAGMENTS asserttReturns mmapOk key val m = None)"
proof (intro conjI impI)
  show "find_map MAX_FRAGMENTS key m = Inr None"
    by (simp add: find_map_def out_of_range_getDataBlock [OF assms])
next
  assume w: "wf_map MAX_FRAGMENTS m"
  note d = out_of_range_dataBlockForInsert [OF w assms]
  show "insertIfAbsent MAX_FRAGMENTS asserttReturns mmapOk env key val m =
      Some (Inl (if asserttReturns then OutOfBounds else AssertionFailed, m\<lparr>lock := True\<rparr>))"
    by (simp add: insertIfAbsent_def d)
  show "insert_map MAX_FRAGMENTS asserttReturns mmapOk key val m =
      Some (Inl (if asserttReturns then OutOfBounds else AssertionFailed, m\<lparr>lock := True\<rparr>))"
    by (simp add: insert_map_def d)
next
  assume l: "lock m"
  note d = out_of_range_lock_held [OF l assms]
  show "insertIfAbsent MAX_FRAGMENTS asserttReturns mmapOk env key val m = None"
    by (simp add: insertIfAbsent_def d)
  show "insert_map MAX_FRAGMENTS asserttReturns mmapOk key val m = None"
    by (simp add: insert_map_def d)
qed

theorem out_of_range_key_witness:
  "fragmentIndexOf mapOfTwo 3145728 = Inr 3 \<and> 2 \<le> unat (3 :: uint) \<and> wf_map 2 mapOfTwo \<and>
   find_map 2 3145728 mapOfTwo = Inr None \<and>
   insertIfAbsent 2 False True envIdle 3145728 42 mapOfTwo =
     Some (Inl (AssertionFailed, mapOfTwo\<lparr>lock := True\<rparr>)) \<and>
   insertIfAbsent 2 True True envIdle 3145728 42 mapOfTwo =
     Some (Inl (OutOfBounds, mapOfTwo\<lparr>lock := True\<rparr>)) \<and>
   insert_map 2 False True 3145728 42 mapOfTwo =
     Some (Inl (AssertionFailed, mapOfTwo\<lparr>lock := True\<rparr>)) \<and>
   insert_map 2 True True 3145728 42 mapOfTwo =
     Some (Inl (OutOfBounds, mapOfTwo\<lparr>lock := True\<rparr>)) \<and>
   lock (mapOfTwo\<lparr>lock := True\<rparr>) \<and>
   insertIfAbsent 2 False True envIdle 3145728 42 (mapOfTwo\<lparr>lock := True\<rparr>) = None \<and>
   insert_map 2 False True 3145728 42 (mapOfTwo\<lparr>lock := True\<rparr>) = None"
proof -
  have u: "2 \<le> unat (3 :: uint)" by simp
  have l: "lock (mapOfTwo\<lparr>lock := True\<rparr>)" by simp
  note free = out_of_range_key [OF fragmentIndexOf_mapOfTwo_fourth u,
      where env = envIdle and val = 42 and mmapOk = True]
  note held = out_of_range_key [OF fragmentIndexOf_mapOfTwo_locked u,
      where env = envIdle and val = 42 and mmapOk = True and asserttReturns = False,
      THEN conjunct2, THEN conjunct2, THEN mp, OF l]
  from free [where asserttReturns = False] free [where asserttReturns = True] held
    fragmentIndexOf_mapOfTwo_fourth u wf_mapOfTwo l
  show ?thesis by simp
qed

text \<open>
  The cut to 32 bits: with fragments of \<open>2 ^ 20\<close> bytes the key \<open>2 ^ 52\<close>, shifted,
  is \<open>2 ^ 32\<close>, and its fragment index is 0.
\<close>

lemma fragmentIndexOf_truncates:
  "drop_bit 20 (4503599627370496 :: ulong) = 4294967296 \<and>
   fragmentIndexOf mapOfTwo 4503599627370496 = Inr 0"
  by (simp add: fragmentIndexOf_def mapOfTwo_def)

text \<open>
  In \<open>AddressToPageIndexShadowMap\<close>, \<open>find\<close> returns \<open>NULL\<close> for a block whose tag is
  \<open>INSERTING\<close>.
\<close>

lemma find_map_while_inserting: "find_map 2 4096 (mapWith blockInserting) = Inr None"
  by (simp add: find_map_def getDataBlock_mapWith readBlock_mapWith) (simp add: blockInserting_def INSERTING_def INSERTED_def)


section \<open>Properties of ShadowHashMap\<close>

text \<open>
  Whatever the map and the key: once the \<open>compare_set\<close> of \<open>insertIfAbsent\<close> has
  succeeded, \<open>find\<close> returns the pointer to the value, and what is stored there is what
  was there before the call.
\<close>

lemma sh_find_after_compare_set:
  assumes "sh_insertIfAbsent_compare_set sizeofValue key m = Inr (True, m')"
    and "getValue sizeofValue (sh_hashKey m key) m = Inr valuePtr"
  shows "sh_find sizeofValue key m' = Inr (Some valuePtr) \<and>
         sh_value m' valuePtr = sh_value m valuePtr"
  using assms
  by (auto simp: sh_insertIfAbsent_compare_set_def sh_find_def sh_hashKey_def isInserted_def
      getValue_def Let_def split: sum.splits if_splits)

text \<open>
  C2: the claim is that a slot of the hash map has a tag of three states, that an insert
  marks it as inserted only after the value is constructed, and that \<open>find\<close>
  therefore never returns a slot whose value is not stored yet. The slot of
  \<open>ShadowHashMap\<close> has a \<open>bool\<close>, which the \<open>compare_set\<close> of \<open>insertIfAbsent\<close> sets
  before the value is stored: on the empty map, after the \<open>compare_set\<close> of
  \<open>insertIfAbsent 3\<close> and before its store, \<open>find 3\<close> returns the pointer to the
  value (offset 28), where no value has been stored yet.
\<close>

theorem sh_find_before_store:
  "sh_insertIfAbsent_compare_set 8 3 hashMapEmpty = Inr (True, hashMapClaimed) \<and>
   sh_find 8 3 hashMapClaimed = Inr (Some 28) \<and>
   sh_value hashMapClaimed 28 = None"
  by (simp add: sh_insertIfAbsent_compare_set_def sh_find_def sh_hashKey_def isInserted_def
      getValue_def hashMapClaimed_def hashMapEmpty_def Let_def)

text \<open>Run to its end without another thread in between, \<open>insertIfAbsent\<close> stores the value.\<close>

lemma sh_insertIfAbsent_then_find:
  "sh_insertIfAbsent 8 3 42 hashMapEmpty =
     Inr (True, hashMapClaimed\<lparr>sh_value := (sh_value hashMapClaimed)(28 \<mapsto> 42)\<rparr>) \<and>
   sh_find 8 3 (hashMapClaimed\<lparr>sh_value := (sh_value hashMapClaimed)(28 \<mapsto> 42)\<rparr>) = Inr (Some 28)"
  by (simp add: sh_insertIfAbsent_def sh_insertIfAbsent_compare_set_def sh_insertIfAbsent_store_def
      sh_find_def sh_hashKey_def isInserted_def
      getValue_def hashMapClaimed_def hashMapEmpty_def Let_def)

end
